theory Spec2Isabelle
  imports Complex_Main "HOL-Library.AList"
begin

section \<open>JavaScript values\<close>

text \<open>
  The validation library (schema.ts) inspects untyped input with \<open>typeof\<close>,
  \<open>Array.isArray\<close>, \<open>instanceof Date\<close>, \<open>isNaN\<close>, the comparison operators and
  \<open>Number.isInteger\<close>. A number is NaN, an infinity or a finite value; the finite
  IEEE doubles are rationals, and the library only compares numbers and tests them for
  integrality, so finite numbers are modelled as rationals (the two zeros are one value,
  which all the operations used here agree on).
\<close>

datatype jsnum = NaN | PosInf | NegInf | Fin rat

datatype other_kind = KFunction | KSymbol | KBigInt

text \<open>
  \<open>VDate t\<close> is a Date object with time value \<open>t\<close> (NaN for an invalid date),
  \<open>VObj\<close> an object with its own properties in insertion order.
\<close>

datatype jsval =
    VUndefined
  | VNull
  | VBool bool
  | VNum jsnum
  | VStr string
  | VDate jsnum
  | VArr "jsval list"
  | VObj "(string \<times> jsval) list"
  | VOther other_kind

fun typeof :: "jsval \<Rightarrow> string" where
  "typeof VUndefined = ''undefined''"
| "typeof VNull = ''object''"
| "typeof (VBool b) = ''boolean''"
| "typeof (VNum n) = ''number''"
| "typeof (VStr s) = ''string''"
| "typeof (VDate t) = ''object''"
| "typeof (VArr xs) = ''object''"
| "typeof (VObj fs) = ''object''"
| "typeof (VOther KFunction) = ''function''"
| "typeof (VOther KSymbol) = ''symbol''"
| "typeof (VOther KBigInt) = ''bigint''"

fun isArray :: "jsval \<Rightarrow> bool" where
  "isArray (VArr xs) = True"
| "isArray v = False"

fun isNaN :: "jsnum \<Rightarrow> bool" where
  "isNaN NaN = True"
| "isNaN n = False"

text \<open>\<open>a < b\<close> on numbers: false whenever an operand is NaN.\<close>

fun js_lt :: "jsnum \<Rightarrow> jsnum \<Rightarrow> bool" where
  "js_lt NaN b = False"
| "js_lt a NaN = False"
| "js_lt PosInf b = False"
| "js_lt NegInf NegInf = False"
| "js_lt NegInf b = True"
| "js_lt (Fin a) PosInf = True"
| "js_lt (Fin a) NegInf = False"
| "js_lt (Fin a) (Fin b) = (a < b)"

text \<open>\<open>a > b\<close> and \<open>a <= b\<close>.\<close>

definition js_gt :: "jsnum \<Rightarrow> jsnum \<Rightarrow> bool" where
  "js_gt a b = js_lt b a"

definition js_le :: "jsnum \<Rightarrow> jsnum \<Rightarrow> bool" where
  "js_le a b = (\<not> isNaN a \<and> \<not> isNaN b \<and> \<not> js_lt b a)"

text \<open>\<open>Number.isInteger\<close>: finite and equal to its floor.\<close>

fun isInteger :: "jsnum \<Rightarrow> bool" where
  "isInteger (Fin r) = (of_int (floor r) = r)"
| "isInteger n = False"

section \<open>Platform functions\<close>

text \<open>
  The library calls the platform for number formatting inside template literals, for
  \<open>new Date(string)\<close> and \<open>new Date(number)\<close> (given here by the time value of the
  resulting Date) and for \<open>Date.prototype.toISOString\<close>. Reading \<open>obj[key]\<close> for a
  key that is not an own property of \<open>obj\<close> goes to the prototype chain:
  \<open>inheritedProp\<close> is the value found there (a member of \<open>Object.prototype\<close> for an
  object literal, of \<open>Date.prototype\<close> too for a Date), \<open>undefined\<close> when there is
  none. They are parameters of the model.
\<close>

record platform =
  numToString :: "jsnum \<Rightarrow> string"
  dateOfString :: "string \<Rightarrow> jsnum"
  dateOfNumber :: "jsnum \<Rightarrow> jsnum"
  toISOString :: "jsnum \<Rightarrow> string"
  inheritedProp :: "jsval \<Rightarrow> string \<Rightarrow> jsval"

text \<open>
  \<open>obj[key]\<close> on a value that passed the object type check: the own property of that
  name when there is one, and what the prototype chain gives otherwise. A \<open>VObj\<close> is
  an ordinary object (its prototype is \<open>Object.prototype\<close>), a \<open>VDate\<close> a Date
  without own properties.
\<close>

fun getProp :: "platform \<Rightarrow> jsval \<Rightarrow> string \<Rightarrow> jsval" where
  "getProp P (VObj fs) key = (case map_of fs key of Some v \<Rightarrow> v | None \<Rightarrow> inheritedProp P (VObj fs) key)"
| "getProp P v key = inheritedProp P v key"

text \<open>
  \<open>validatedObj[key] = value\<close> on the object that \<open>validateFields\<close> starts as
  \<open>{}\<close>: the own property is created, or updated in place. The key \<open>__proto__\<close> is
  the exception: the object inherits it from \<open>Object.prototype\<close> as an accessor, so
  the assignment calls its setter and no own property is stored (the setter makes an
  object \<open>value\<close> the prototype of the result, which a \<open>jsval\<close> does not record).
\<close>

definition assignProp :: "string \<Rightarrow> jsval \<Rightarrow> (string \<times> jsval) list \<Rightarrow> (string \<times> jsval) list" where
  "assignProp key v props = (if key = ''__proto__'' then props else AList.update key v props)"

text \<open>Decimal digits of an array index, as \<open>${i}\<close> prints it.\<close>

fun show_nat :: "nat \<Rightarrow> string" where
  "show_nat n = (if n < 10 then [char_of (48 + n)] else show_nat (n div 10) @ [char_of (48 + n mod 10)])"

declare show_nat.simps [simp del]

text \<open>\<open>Array.prototype.join\<close> on an array of strings.\<close>

fun join :: "string \<Rightarrow> string list \<Rightarrow> string" where
  "join sep [] = []"
| "join sep [x] = x"
| "join sep (x # y # ys) = x @ sep @ join sep (y # ys)"

section \<open>Results\<close>

text \<open>
  \<open>type ValidationResult<T> = { success: boolean; data?: T; errors?: string[] }\<close>.
  A property that is absent is \<open>None\<close>; \<open>data = Some VUndefined\<close> is the property
  present with the value \<open>undefined\<close>.
\<close>

record result =
  success :: bool
  data :: "jsval option"
  errors :: "string list option"

text \<open>Reading \<open>result.data\<close>: an absent property reads as \<open>undefined\<close>.\<close>

definition dataOf :: "result \<Rightarrow> jsval" where
  "dataOf r = (case data r of Some d \<Rightarrow> d | None \<Rightarrow> VUndefined)"

text \<open>\<open>${result.errors?.join(', ')}\<close> inside a template literal.\<close>

definition joinErrors :: "result \<Rightarrow> string" where
  "joinErrors r = (case errors r of Some es \<Rightarrow> join '', '' es | None \<Rightarrow> ''undefined'')"

section \<open>ValidationUtils\<close>

fun isNullish :: "jsval \<Rightarrow> bool" where
  "isNullish VNull = True"
| "isNullish VUndefined = True"
| "isNullish v = False"

definition validateRange :: "platform \<Rightarrow> jsnum \<Rightarrow> jsnum option \<Rightarrow> jsnum option \<Rightarrow> string \<Rightarrow> string option" where
  "validateRange P v mn mx ty =
     (let upper = (case mx of
                     Some m \<Rightarrow> if js_gt v m then Some (ty @ '' must be no more than '' @ numToString P m) else None
                   | None \<Rightarrow> None)
      in case mn of
           Some m \<Rightarrow> if js_lt v m then Some (ty @ '' must be at least '' @ numToString P m) else upper
         | None \<Rightarrow> upper)"

definition lengthUnit :: "string \<Rightarrow> string" where
  "lengthUnit ty = (if ty = ''Array'' then ''items'' else ''characters long'')"

definition validateLength :: "platform \<Rightarrow> nat \<Rightarrow> jsnum option \<Rightarrow> jsnum option \<Rightarrow> string \<Rightarrow> string option" where
  "validateLength P len mn mx ty =
     (let upper = (case mx of
                     Some m \<Rightarrow> if js_gt (Fin (of_nat len)) m
                               then Some (ty @ '' must have no more than '' @ numToString P m @ '' '' @ lengthUnit ty)
                               else None
                   | None \<Rightarrow> None)
      in case mn of
           Some m \<Rightarrow> if js_lt (Fin (of_nat len)) m
                     then Some (ty @ '' must have at least '' @ numToString P m @ '' '' @ lengthUnit ty)
                     else upper
         | None \<Rightarrow> upper)"

text \<open>\<open>customMessage || default\<close>: the empty string is falsy.\<close>

definition orElse :: "string option \<Rightarrow> string \<Rightarrow> string" where
  "orElse cm message = (case cm of Some m \<Rightarrow> if m = [] then message else m | None \<Rightarrow> message)"

definition createPatternError :: "string option \<Rightarrow> string" where
  "createPatternError cm = orElse cm ''Value does not match the required pattern''"

section \<open>The Validator base class\<close>

record vbase =
  v_optional :: bool
  v_customMessage :: "string option"

definition createError :: "vbase \<Rightarrow> string \<Rightarrow> result" where
  "createError b message =
     \<lparr>success = False, data = None, errors = Some [orElse (v_customMessage b) message]\<rparr>"

definition createSuccess :: "jsval \<Rightarrow> result" where
  "createSuccess d = \<lparr>success = True, data = Some d, errors = None\<rparr>"

definition handleOptional :: "vbase \<Rightarrow> jsval \<Rightarrow> result option" where
  "handleOptional b v =
     (if isNullish v then
        (if v_optional b then Some (createSuccess VUndefined)
         else Some (createError b ''Value is required''))
      else None)"

definition validateType :: "vbase \<Rightarrow> jsval \<Rightarrow> string \<Rightarrow> string \<Rightarrow> result option" where
  "validateType b v expectedType typeName =
     (if typeof v \<noteq> expectedType then Some (createError b (''Value must be a '' @ typeName))
      else None)"

section \<open>Validators\<close>

datatype literal = LStr string | LNum jsnum | LBool bool

text \<open>
  One constructor per validator class, holding the fields of the class after those of
  its base classes: \<open>_minLength\<close>, \<open>_maxLength\<close> and \<open>_pattern\<close> for strings;
  \<open>_min\<close>, \<open>_max\<close>, \<open>_integer\<close> and \<open>_positive\<close> for numbers; \<open>_minDate\<close> and
  \<open>_maxDate\<close> (the time values of the two Date objects) for dates; \<open>_minLength\<close>,
  \<open>_maxLength\<close> and \<open>itemValidator\<close> for arrays; \<open>schema\<close> for objects, as its list
  of entries in the order of \<open>Object.entries\<close>; \<open>validators\<close> for unions; the value of
  the anonymous class that \<open>Schema.literal\<close> returns. A field that is \<open>undefined\<close> is
  \<open>None\<close>. A regular expression is the predicate its \<open>test\<close> method computes.
\<close>

datatype validator =
    StringValidator vbase "jsnum option" "jsnum option" "(string \<Rightarrow> bool) option"
  | NumberValidator vbase "jsnum option" "jsnum option" bool bool
  | BooleanValidator vbase
  | DateValidator vbase "jsnum option" "jsnum option"
  | ArrayValidator vbase "jsnum option" "jsnum option" validator
  | ObjectValidator vbase "(string \<times> validator) list"
  | UnionValidator vbase "validator list"
  | LiteralValidator vbase literal

fun base :: "validator \<Rightarrow> vbase" where
  "base (StringValidator b mn mx pat) = b"
| "base (NumberValidator b mn mx i p) = b"
| "base (BooleanValidator b) = b"
| "base (DateValidator b mn mx) = b"
| "base (ArrayValidator b mn mx item) = b"
| "base (ObjectValidator b schema) = b"
| "base (UnionValidator b alts) = b"
| "base (LiteralValidator b l) = b"

fun set_base :: "vbase \<Rightarrow> validator \<Rightarrow> validator" where
  "set_base b' (StringValidator b mn mx pat) = StringValidator b' mn mx pat"
| "set_base b' (NumberValidator b mn mx i p) = NumberValidator b' mn mx i p"
| "set_base b' (BooleanValidator b) = BooleanValidator b'"
| "set_base b' (DateValidator b mn mx) = DateValidator b' mn mx"
| "set_base b' (ArrayValidator b mn mx item) = ArrayValidator b' mn mx item"
| "set_base b' (ObjectValidator b schema) = ObjectValidator b' schema"
| "set_base b' (UnionValidator b alts) = UnionValidator b' alts"
| "set_base b' (LiteralValidator b l) = LiteralValidator b' l"

text \<open>The chained configuration calls return the receiver with a field assigned.\<close>

definition optional :: "validator \<Rightarrow> validator" where
  "optional v = set_base ((base v)\<lparr>v_optional := True\<rparr>) v"

definition withMessage :: "string \<Rightarrow> validator \<Rightarrow> validator" where
  "withMessage message v = set_base ((base v)\<lparr>v_customMessage := Some message\<rparr>) v"

definition strict :: "validator \<Rightarrow> validator" where
  "strict v = withMessage ''Object contains unexpected properties'' v"

text \<open>The \<open>Schema\<close> factory: freshly constructed validators.\<close>

definition new_base :: vbase where
  "new_base = \<lparr>v_optional = False, v_customMessage = None\<rparr>"

definition Schema_string :: validator where
  "Schema_string = StringValidator new_base None None None"

definition Schema_number :: validator where
  "Schema_number = NumberValidator new_base None None False False"

definition Schema_boolean :: validator where
  "Schema_boolean = BooleanValidator new_base"

definition Schema_date :: validator where
  "Schema_date = DateValidator new_base None None"

definition Schema_array :: "validator \<Rightarrow> validator" where
  "Schema_array item = ArrayValidator new_base None None item"

definition Schema_object :: "(string \<times> validator) list \<Rightarrow> validator" where
  "Schema_object schema = ObjectValidator new_base schema"

definition Schema_union :: "validator list \<Rightarrow> validator" where
  "Schema_union alts = UnionValidator new_base alts"

definition Schema_literal :: "literal \<Rightarrow> validator" where
  "Schema_literal l = LiteralValidator new_base l"

section \<open>Validation\<close>

subsection \<open>DateValidator helpers\<close>

definition parseDate :: "platform \<Rightarrow> vbase \<Rightarrow> jsval \<Rightarrow> result" where
  "parseDate P b v =
     (case (case v of
              VDate t \<Rightarrow> Some t
            | VStr s \<Rightarrow> Some (dateOfString P s)
            | VNum n \<Rightarrow> Some (dateOfNumber P n)
            | _ \<Rightarrow> None) of
        None \<Rightarrow> createError b ''Value must be a Date, string, or number''
      | Some t \<Rightarrow>
          if isNaN t then createError b ''Value must be a valid date''
          else createSuccess (VDate t))"

definition validateDateRange :: "platform \<Rightarrow> jsnum option \<Rightarrow> jsnum option \<Rightarrow> jsnum \<Rightarrow> string option" where
  "validateDateRange P minDate maxDate t =
     (let upper = (case maxDate of
                     Some m \<Rightarrow> if js_gt t m then Some (''Date must be before '' @ toISOString P m) else None
                   | None \<Rightarrow> None)
      in case minDate of
           Some m \<Rightarrow> if js_lt t m then Some (''Date must be after '' @ toISOString P m) else upper
         | None \<Rightarrow> upper)"

subsection \<open>ArrayValidator.validateItems\<close>

text \<open>
  The loop over the indices of the array: \<open>f\<close> is \<open>this.itemValidator.validate\<close>, the
  list is the part of the array from index \<open>i\<close> on, the pair holds \<open>validatedItems\<close>
  and \<open>errors\<close>.
\<close>

fun validateItems_loop :: "(jsval \<Rightarrow> result) \<Rightarrow> jsval list \<Rightarrow> nat \<Rightarrow> jsval list \<times> string list \<Rightarrow> jsval list \<times> string list" where
  "validateItems_loop f [] i (items, errs) = (items, errs)"
| "validateItems_loop f (x # xs) i (items, errs) =
     (let r = f x in
      if success r then validateItems_loop f xs (i + 1) (items @ [dataOf r], errs)
      else validateItems_loop f xs (i + 1)
             (items, errs @ [''Item at index '' @ show_nat i @ '': '' @ joinErrors r]))"

definition validateItems :: "(jsval \<Rightarrow> result) \<Rightarrow> jsval list \<Rightarrow> result" where
  "validateItems f array =
     (case validateItems_loop f array 0 ([], []) of
        (items, errs) \<Rightarrow>
          if length errs > 0 then \<lparr>success = False, data = None, errors = Some errs\<rparr>
          else createSuccess (VArr items))"

subsection \<open>ObjectValidator.validateFields\<close>

text \<open>
  The loop over \<open>Object.entries(this.schema)\<close>: each entry is a key with the
  \<open>validate\<close> method of its validator; the pair holds \<open>validatedObj\<close> and \<open>errors\<close>.
\<close>

fun validateFields_loop :: "platform \<Rightarrow> (string \<times> (jsval \<Rightarrow> result)) list \<Rightarrow> jsval \<Rightarrow> (string \<times> jsval) list \<times> string list \<Rightarrow> (string \<times> jsval) list \<times> string list" where
  "validateFields_loop P [] obj (vobj, errs) = (vobj, errs)"
| "validateFields_loop P ((key, f) # rest) obj (vobj, errs) =
     (let r = f (getProp P obj key) in
      if success r then
        (if dataOf r \<noteq> VUndefined then validateFields_loop P rest obj (assignProp key (dataOf r) vobj, errs)
         else validateFields_loop P rest obj (vobj, errs))
      else validateFields_loop P rest obj
             (vobj, errs @ [''Field '' @ [CHR 0x27] @ key @ [CHR 0x27] @ '': '' @ joinErrors r]))"

definition validateFields :: "platform \<Rightarrow> (string \<times> (jsval \<Rightarrow> result)) list \<Rightarrow> jsval \<Rightarrow> result" where
  "validateFields P entries obj =
     (case validateFields_loop P entries obj ([], []) of
        (vobj, errs) \<Rightarrow>
          if length errs > 0 then \<lparr>success = False, data = None, errors = Some errs\<rparr>
          else createSuccess (VObj vobj))"

subsection \<open>UnionValidator: the loop over the alternatives\<close>

fun tryValidators :: "(jsval \<Rightarrow> result) list \<Rightarrow> jsval \<Rightarrow> result option" where
  "tryValidators [] v = None"
| "tryValidators (f # fs) v = (let r = f v in if success r then Some r else tryValidators fs v)"

subsection \<open>Literal validator\<close>

text \<open>\<open>input !== value\<close> for a string, number or boolean \<open>value\<close>: NaN differs from itself.\<close>

fun strictEq :: "jsval \<Rightarrow> literal \<Rightarrow> bool" where
  "strictEq (VStr s) (LStr t) = (s = t)"
| "strictEq (VNum a) (LNum b) = (\<not> isNaN a \<and> \<not> isNaN b \<and> a = b)"
| "strictEq (VBool a) (LBool b) = (a = b)"
| "strictEq v l = False"

fun literalToString :: "platform \<Rightarrow> literal \<Rightarrow> string" where
  "literalToString P (LStr s) = s"
| "literalToString P (LNum n) = numToString P n"
| "literalToString P (LBool b) = (if b then ''true'' else ''false'')"

subsection \<open>The validate methods\<close>

text \<open>
  One equation per class, in the order of the checks of the method. Where the source
  casts after a check (\<open>value as string\<close>, \<open>dateResult.data!\<close>), the model
  matches on the value; the remaining branch of such a match is never taken.
\<close>

fun validate :: "platform \<Rightarrow> validator \<Rightarrow> jsval \<Rightarrow> result" where
  "validate P (StringValidator b mn mx pat) v =
     (case handleOptional b v of
        Some r \<Rightarrow> r
      | None \<Rightarrow>
         (case validateType b v ''string'' ''string'' of
            Some r \<Rightarrow> r
          | None \<Rightarrow>
             (case v of
                VStr str \<Rightarrow>
                  (case validateLength P (length str) mn mx ''String'' of
                     Some lengthError \<Rightarrow> createError b lengthError
                   | None \<Rightarrow>
                       if (case pat of Some p \<Rightarrow> \<not> p str | None \<Rightarrow> False)
                       then createError b (createPatternError None)
                       else createSuccess (VStr str))
              | _ \<Rightarrow> createError b ''Value must be a string'')))"
| "validate P (NumberValidator b mn mx integerFlag positiveFlag) v =
     (case handleOptional b v of
        Some r \<Rightarrow> r
      | None \<Rightarrow>
         (case v of
            VNum num \<Rightarrow>
              if isNaN num then createError b ''Value must be a number''
              else (case validateRange P num mn mx ''Number'' of
                      Some rangeError \<Rightarrow> createError b rangeError
                    | None \<Rightarrow>
                        if integerFlag \<and> \<not> isInteger num then createError b ''Number must be an integer''
                        else if positiveFlag \<and> js_le num (Fin 0) then createError b ''Number must be positive''
                        else createSuccess (VNum num))
          | _ \<Rightarrow> createError b ''Value must be a number''))"
| "validate P (BooleanValidator b) v =
     (case handleOptional b v of
        Some r \<Rightarrow> r
      | None \<Rightarrow>
         (case validateType b v ''boolean'' ''boolean'' of
            Some r \<Rightarrow> r
          | None \<Rightarrow> createSuccess v))"
| "validate P (DateValidator b minDate maxDate) v =
     (case handleOptional b v of
        Some r \<Rightarrow> r
      | None \<Rightarrow>
         (let dateResult = parseDate P b v in
          if \<not> success dateResult then dateResult
          else (case dataOf dateResult of
                  VDate t \<Rightarrow>
                    (case validateDateRange P minDate maxDate t of
                       Some rangeError \<Rightarrow> createError b rangeError
                     | None \<Rightarrow> createSuccess (VDate t))
                | d \<Rightarrow> createSuccess d)))"
| "validate P (ArrayValidator b mn mx item) v =
     (case handleOptional b v of
        Some r \<Rightarrow> r
      | None \<Rightarrow>
         (case v of
            VArr array \<Rightarrow>
              (case validateLength P (length array) mn mx ''Array'' of
                 Some lengthError \<Rightarrow> createError b lengthError
               | None \<Rightarrow>
                   (let itemResult = validateItems (\<lambda>x. validate P item x) array in
                    if \<not> success itemResult then itemResult
                    else createSuccess (dataOf itemResult)))
          | _ \<Rightarrow> createError b ''Value must be an array''))"
| "validate P (ObjectValidator b schema) v =
     (case handleOptional b v of
        Some r \<Rightarrow> r
      | None \<Rightarrow>
         if typeof v \<noteq> ''object'' \<or> isArray v then createError b ''Value must be an object''
         else (let fieldResult = validateFields P (map (\<lambda>(key, validator). (key, \<lambda>x. validate P validator x)) schema) v in
               if \<not> success fieldResult then fieldResult
               else createSuccess (dataOf fieldResult)))"
| "validate P (UnionValidator b alts) v =
     (case handleOptional b v of
        Some r \<Rightarrow> r
      | None \<Rightarrow>
         (case tryValidators (map (\<lambda>validator. \<lambda>x. validate P validator x) alts) v of
            Some r \<Rightarrow> r
          | None \<Rightarrow> createError b ''Value does not match any of the allowed types''))"
| "validate P (LiteralValidator b l) v =
     (case handleOptional b v of
        Some r \<Rightarrow> r
      | None \<Rightarrow>
         if \<not> strictEq v l then createError b (''Value must be exactly '' @ literalToString P l)
         else createSuccess v)"

section \<open>A reference platform\<close>

text \<open>
  An instance of the platform functions, used to evaluate the validators on concrete
  inputs. Numbers print as ECMAScript prints them when they are integers (below
  \<open>10^21\<close> in magnitude), NaN or infinite; any other finite number prints as a
  fraction, which ECMAScript does not do, and no evaluation below prints one. A date
  string is parsed when it has the ISO date-only form \<open>YYYY-MM-DD\<close> (midnight UTC)
  and is an invalid date otherwise; \<open>new Date(number)\<close> clips and truncates the time
  value; \<open>toISOString\<close> prints \<open>YYYY-MM-DDTHH:mm:ss.sssZ\<close>. An object literal
  inherits the members of the standard \<open>Object.prototype\<close> that have string names
  (functions, and the accessor \<open>__proto__\<close>, which reads as the prototype), a Date
  those of \<open>Date.prototype\<close> before them; nothing has been added to either. Every
  general theorem below holds for all platforms.
\<close>

definition show_int :: "int \<Rightarrow> string" where
  "show_int i = (if i < 0 then ''-'' @ show_nat (nat (- i)) else show_nat (nat i))"

fun pad :: "nat \<Rightarrow> nat \<Rightarrow> string" where
  "pad 0 n = []"
| "pad (Suc w) n = pad w (n div 10) @ [char_of (48 + n mod 10)]"

definition ref_numToString :: "jsnum \<Rightarrow> string" where
  "ref_numToString n =
     (case n of
        NaN \<Rightarrow> ''NaN''
      | PosInf \<Rightarrow> ''Infinity''
      | NegInf \<Rightarrow> ''-Infinity''
      | Fin r \<Rightarrow>
          if of_int (floor r) = r then show_int (floor r)
          else show_int (fst (quotient_of r)) @ ''/'' @ show_int (snd (quotient_of r)))"

definition days_from_civil :: "int \<Rightarrow> int \<Rightarrow> int \<Rightarrow> int" where
  "days_from_civil y m d =
     (let y' = (if m \<le> 2 then y - 1 else y);
          era = y' div 400;
          yoe = y' - era * 400;
          doy = (153 * (if m > 2 then m - 3 else m + 9) + 2) div 5 + d - 1;
          doe = yoe * 365 + yoe div 4 - yoe div 100 + doy
      in era * 146097 + doe - 719468)"

definition civil_from_days :: "int \<Rightarrow> int \<times> int \<times> int" where
  "civil_from_days z =
     (let z' = z + 719468;
          era = z' div 146097;
          doe = z' - era * 146097;
          yoe = (doe - doe div 1460 + doe div 36524 - doe div 146096) div 365;
          doy = doe - (365 * yoe + yoe div 4 - yoe div 100);
          mp = (5 * doy + 2) div 153;
          d = doy - (153 * mp + 2) div 5 + 1;
          m = (if mp < 10 then mp + 3 else mp - 9);
          y = yoe + era * 400
      in (if m \<le> 2 then y + 1 else y, m, d))"

definition isDigit :: "char \<Rightarrow> bool" where
  "isDigit c = (48 \<le> (of_char c :: nat) \<and> (of_char c :: nat) \<le> 57)"

fun digitsVal :: "string \<Rightarrow> nat" where
  "digitsVal [] = 0"
| "digitsVal cs = digitsVal (butlast cs) * 10 + (of_char (last cs) - 48)"

definition daysInMonth :: "int \<Rightarrow> int \<Rightarrow> int" where
  "daysInMonth y m =
     (if m = 2 then (if y mod 4 = 0 \<and> (y mod 100 \<noteq> 0 \<or> y mod 400 = 0) then 29 else 28)
      else if m = 4 \<or> m = 6 \<or> m = 9 \<or> m = 11 then 30 else 31)"

definition ref_dateOfString :: "string \<Rightarrow> jsnum" where
  "ref_dateOfString s =
     (if length s = 10 \<and> s ! 4 = CHR ''-'' \<and> s ! 7 = CHR ''-''
         \<and> list_all isDigit (take 4 s @ take 2 (drop 5 s) @ drop 8 s)
      then (let y = int (digitsVal (take 4 s));
                m = int (digitsVal (take 2 (drop 5 s)));
                d = int (digitsVal (drop 8 s))
            in if 1 \<le> m \<and> m \<le> 12 \<and> 1 \<le> d \<and> d \<le> daysInMonth y m
               then Fin (of_int (days_from_civil y m d * 86400000))
               else NaN)
      else NaN)"

definition ref_dateOfNumber :: "jsnum \<Rightarrow> jsnum" where
  "ref_dateOfNumber n =
     (case n of
        Fin r \<Rightarrow> if \<bar>r\<bar> > 8640000000000000 then NaN
                 else Fin (of_int (if r < 0 then - floor (- r) else floor r))
      | _ \<Rightarrow> NaN)"

definition ref_toISOString :: "jsnum \<Rightarrow> string" where
  "ref_toISOString t =
     (case t of
        Fin r \<Rightarrow>
          (let ms = floor r;
               day = ms div 86400000;
               rest = nat (ms mod 86400000)
           in case civil_from_days day of
                (y, m, d) \<Rightarrow>
                  (if 0 \<le> y \<and> y \<le> 9999 then pad 4 (nat y)
                   else (if y < 0 then ''-'' else ''+'') @ pad 6 (nat \<bar>y\<bar>))
                  @ ''-'' @ pad 2 (nat m) @ ''-'' @ pad 2 (nat d)
                  @ ''T'' @ pad 2 (rest div 3600000) @ '':'' @ pad 2 (rest div 60000 mod 60)
                  @ '':'' @ pad 2 (rest div 1000 mod 60) @ ''.'' @ pad 3 (rest mod 1000) @ ''Z'')
      | _ \<Rightarrow> ''Invalid Date'')"

definition objectPrototypeNames :: "string list" where
  "objectPrototypeNames =
     [''constructor'', ''hasOwnProperty'', ''isPrototypeOf'', ''propertyIsEnumerable'',
      ''toLocaleString'', ''toString'', ''valueOf'', ''__defineGetter__'', ''__defineSetter__'',
      ''__lookupGetter__'', ''__lookupSetter__'']"

definition datePrototypeNames :: "string list" where
  "datePrototypeNames =
     [''constructor'', ''getDate'', ''getDay'', ''getFullYear'', ''getHours'', ''getMilliseconds'',
      ''getMinutes'', ''getMonth'', ''getSeconds'', ''getTime'', ''getTimezoneOffset'',
      ''getUTCDate'', ''getUTCDay'', ''getUTCFullYear'', ''getUTCHours'', ''getUTCMilliseconds'',
      ''getUTCMinutes'', ''getUTCMonth'', ''getUTCSeconds'', ''getYear'', ''setDate'',
      ''setFullYear'', ''setHours'', ''setMilliseconds'', ''setMinutes'', ''setMonth'',
      ''setSeconds'', ''setTime'', ''setUTCDate'', ''setUTCFullYear'', ''setUTCHours'',
      ''setUTCMilliseconds'', ''setUTCMinutes'', ''setUTCMonth'', ''setUTCSeconds'', ''setYear'',
      ''toDateString'', ''toGMTString'', ''toISOString'', ''toJSON'', ''toLocaleDateString'',
      ''toLocaleString'', ''toLocaleTimeString'', ''toString'', ''toTimeString'', ''toUTCString'',
      ''valueOf'']"

definition prototypeObject :: "string list \<Rightarrow> jsval" where
  "prototypeObject names = VObj (map (\<lambda>name. (name, VOther KFunction)) names)"

definition ref_inheritedProp :: "jsval \<Rightarrow> string \<Rightarrow> jsval" where
  "ref_inheritedProp v key =
     (case v of
        VObj fs \<Rightarrow>
          if key = ''__proto__'' then prototypeObject objectPrototypeNames
          else if key \<in> set objectPrototypeNames then VOther KFunction
          else VUndefined
      | VDate t \<Rightarrow>
          if key = ''__proto__'' then prototypeObject datePrototypeNames
          else if key \<in> set (datePrototypeNames @ objectPrototypeNames) then VOther KFunction
          else VUndefined
      | _ \<Rightarrow> VUndefined)"

definition ref_platform :: platform where
  "ref_platform =
     \<lparr>numToString = ref_numToString, dateOfString = ref_dateOfString,
      dateOfNumber = ref_dateOfNumber, toISOString = ref_toISOString,
      inheritedProp = ref_inheritedProp\<rparr>"

section \<open>The aggregated error lists in closed form\<close>

text \<open>
  The entries that the loop of \<open>validateItems\<close> pushes for an array whose first element
  has index \<open>i\<close>: one entry for each element on which \<open>f\<close> fails, in index order.
\<close>

definition itemErrors :: "(jsval \<Rightarrow> result) \<Rightarrow> jsval list \<Rightarrow> nat \<Rightarrow> string list" where
  "itemErrors f xs i = concat (map (\<lambda>k. if success (f (xs ! k)) then []
        else [''Item at index '' @ show_nat (i + k) @ '': '' @ joinErrors (f (xs ! k))]) [0..<length xs])"

text \<open>
  The results of the declared fields on an input object, the entries that the loop of
  \<open>validateFields\<close> pushes for them (one for each failing field, in schema order) and
  the properties it writes (one for each field whose data is not \<open>undefined\<close>).
\<close>

definition fieldResults :: "platform \<Rightarrow> (string \<times> (jsval \<Rightarrow> result)) list \<Rightarrow> jsval \<Rightarrow> (string \<times> result) list" where
  "fieldResults P entries obj = map (\<lambda>(key, f). (key, f (getProp P obj key))) entries"

definition fieldErrors :: "(string \<times> result) list \<Rightarrow> string list" where
  "fieldErrors rs = concat (map (\<lambda>(key, r). if success r then []
       else [''Field '' @ [CHR 0x27] @ key @ [CHR 0x27] @ '': '' @ joinErrors r]) rs)"

definition fieldData :: "(string \<times> result) list \<Rightarrow> (string \<times> jsval) list" where
  "fieldData rs = concat (map (\<lambda>(key, r). if dataOf r \<noteq> VUndefined then [(key, dataOf r)] else []) rs)"

text \<open>The shape of a result: data and no errors on success, errors (at least one) and
  no data on failure.\<close>

definition wellFormed :: "result \<Rightarrow> bool" where
  "wellFormed r =
     (if success r then (\<exists>d. data r = Some d) \<and> errors r = None
      else data r = None \<and> (\<exists>es. errors r = Some es \<and> es \<noteq> []))"

section \<open>Notions used to state the claims\<close>

text \<open>
  The inputs on which a composite validator passes its own checks (presence, type,
  length) and returns what \<open>validateItems\<close> or \<open>validateFields\<close> computes from
  its children.
\<close>

fun reachesChildren :: "platform \<Rightarrow> validator \<Rightarrow> jsval \<Rightarrow> bool" where
  "reachesChildren P (ArrayValidator b mn mx item) (VArr xs) =
     (validateLength P (length xs) mn mx ''Array'' = None)"
| "reachesChildren P (ObjectValidator b schema) v =
     (\<not> isNullish v \<and> typeof v = ''object'' \<and> \<not> isArray v)"
| "reachesChildren P v x = False"

text \<open>
  The configured constraints of a number validator in the order range, integer,
  positive: each is the test that it is violated, with its default message. Positive
  means strictly greater than zero.
\<close>

definition numberConstraints :: "platform \<Rightarrow> jsnum option \<Rightarrow> jsnum option \<Rightarrow> bool \<Rightarrow> bool \<Rightarrow> ((jsnum \<Rightarrow> bool) \<times> string) list" where
  "numberConstraints P mn mx integerFlag positiveFlag =
     (case mn of Some m \<Rightarrow> [(\<lambda>n. js_lt n m, ''Number must be at least '' @ numToString P m)] | None \<Rightarrow> [])
     @ (case mx of Some m \<Rightarrow> [(\<lambda>n. js_gt n m, ''Number must be no more than '' @ numToString P m)] | None \<Rightarrow> [])
     @ (if integerFlag then [(\<lambda>n. \<not> isInteger n, ''Number must be an integer'')] else [])
     @ (if positiveFlag then [(\<lambda>n. \<not> js_gt n (Fin 0), ''Number must be positive'')] else [])"

text \<open>\<open>value instanceof Date\<close>.\<close>

fun isDate :: "jsval \<Rightarrow> bool" where
  "isDate (VDate t) = True"
| "isDate v = False"

section \<open>The loops of the composite validators\<close>

lemma itemErrors_Nil: "itemErrors f [] i = []"
  by (simp add: itemErrors_def)

lemma itemErrors_Cons:
  "itemErrors f (x # xs) i =
     (if success (f x) then [] else [''Item at index '' @ show_nat i @ '': '' @ joinErrors (f x)])
     @ itemErrors f xs (Suc i)"
proof -
  have h: "[0..<Suc (length xs)] = 0 # map Suc [0..<length xs]"
    by (simp add: upt_conv_Cons map_Suc_upt del: upt_Suc)
  show ?thesis
    by (simp add: itemErrors_def h comp_def del: upt_Suc cong: if_cong)
qed

lemma validateItems_loop_eq:
  "validateItems_loop f xs i (items, errs) =
     (items @ map (\<lambda>x. dataOf (f x)) (filter (\<lambda>x. success (f x)) xs), errs @ itemErrors f xs i)"
proof (induction xs arbitrary: i items errs)
  case Nil
  show ?case by (simp add: itemErrors_Nil)
next
  case (Cons x xs)
  show ?case by (simp add: Cons.IH itemErrors_Cons Let_def)
qed

lemma itemErrors_empty_iff: "itemErrors f xs i = [] \<longleftrightarrow> (\<forall>x \<in> set xs. success (f x))"
  by (induction xs arbitrary: i) (auto simp: itemErrors_Nil itemErrors_Cons)

lemma validateItems_eq:
  "validateItems f xs =
     (if \<forall>x \<in> set xs. success (f x) then createSuccess (VArr (map (\<lambda>x. dataOf (f x)) xs))
      else \<lparr>success = False, data = None, errors = Some (itemErrors f xs 0)\<rparr>)"
proof (cases "\<forall>x \<in> set xs. success (f x)")
  case True
  then have "filter (\<lambda>x. success (f x)) xs = xs" by simp
  with True show ?thesis
    by (simp add: validateItems_def validateItems_loop_eq itemErrors_empty_iff [THEN iffD2])
next
  case False
  then have ne: "itemErrors f xs 0 \<noteq> []" by (simp add: itemErrors_empty_iff)
  show ?thesis
    unfolding if_not_P [OF False]
    using ne by (simp add: validateItems_def validateItems_loop_eq)
qed

lemma update_fresh: "k \<notin> fst ` set al \<Longrightarrow> AList.update k v al = al @ [(k, v)]"
  by (induction al) auto

lemma assignProp_fresh:
  "k \<noteq> ''__proto__'' \<Longrightarrow> k \<notin> fst ` set al \<Longrightarrow> assignProp k v al = al @ [(k, v)]"
  by (simp add: assignProp_def update_fresh)

lemma fieldErrors_Nil: "fieldErrors [] = []"
  by (simp add: fieldErrors_def)

lemma fieldErrors_Cons:
  "fieldErrors ((key, r) # rs) =
     (if success r then [] else [''Field '' @ [CHR 0x27] @ key @ [CHR 0x27] @ '': '' @ joinErrors r])
     @ fieldErrors rs"
  by (simp add: fieldErrors_def)

lemma validateFields_loop_errs:
  "snd (validateFields_loop P entries obj (vobj, errs)) = errs @ fieldErrors (fieldResults P entries obj)"
proof (induction entries arbitrary: vobj errs)
  case Nil
  show ?case by (simp add: fieldErrors_def fieldResults_def)
next
  case (Cons e entries)
  obtain key f where e: "e = (key, f)" by (cases e)
  show ?case
    using Cons.IH by (simp add: e Let_def fieldErrors_def fieldResults_def)
qed

lemma validateFields_loop_data:
  assumes "distinct (map fst entries)"
    and "fst ` set vobj \<inter> fst ` set entries = {}"
    and "\<forall>(key, r) \<in> set (fieldResults P entries obj). success r"
    and "''__proto__'' \<notin> fst ` set entries"
  shows "fst (validateFields_loop P entries obj (vobj, errs)) = vobj @ fieldData (fieldResults P entries obj)"
  using assms
proof (induction entries arbitrary: vobj errs)
  case Nil
  show ?case by (simp add: fieldData_def fieldResults_def)
next
  case (Cons e entries)
  obtain key f where e: "e = (key, f)" by (cases e)
  have fresh: "key \<notin> fst ` set vobj" using Cons.prems(2) by (auto simp: e)
  have d: "distinct (map fst entries)" and knew: "key \<notin> fst ` set entries"
    using Cons.prems(1) by (auto simp: e)
  have rest: "\<forall>(key, r) \<in> set (fieldResults P entries obj). success r"
    using Cons.prems(3) by (simp add: fieldResults_def)
  have ok: "success (f (getProp P obj key))"
    using Cons.prems(3) by (simp add: fieldResults_def e)
  have disj: "fst ` set vobj \<inter> fst ` set entries = {}"
    using Cons.prems(2) by (auto simp: e)
  have np: "''__proto__'' \<notin> fst ` set entries" and kp: "key \<noteq> ''__proto__''"
    using Cons.prems(4) by (auto simp: e)
  show ?case
  proof (cases "dataOf (f (getProp P obj key)) = VUndefined")
    case True
    have "fst (validateFields_loop P (e # entries) obj (vobj, errs))
            = fst (validateFields_loop P entries obj (vobj, errs))"
      by (simp add: e Let_def ok True)
    also have "\<dots> = vobj @ fieldData (fieldResults P entries obj)"
      by (rule Cons.IH [OF d disj rest np])
    also have "\<dots> = vobj @ fieldData (fieldResults P (e # entries) obj)"
      by (simp add: fieldData_def fieldResults_def e True)
    finally show ?thesis .
  next
    case False
    let ?v = "dataOf (f (getProp P obj key))"
    have disj': "fst ` set (vobj @ [(key, ?v)]) \<inter> fst ` set entries = {}"
      using disj knew by auto
    have "fst (validateFields_loop P (e # entries) obj (vobj, errs))
            = fst (validateFields_loop P entries obj (vobj @ [(key, ?v)], errs))"
      by (simp add: e Let_def ok False assignProp_fresh [OF kp fresh])
    also have "\<dots> = (vobj @ [(key, ?v)]) @ fieldData (fieldResults P entries obj)"
      by (rule Cons.IH [OF d disj' rest np])
    also have "\<dots> = vobj @ fieldData (fieldResults P (e # entries) obj)"
      by (simp add: fieldData_def fieldResults_def e False)
    finally show ?thesis .
  qed
qed

lemma fieldErrors_empty_iff: "fieldErrors rs = [] \<longleftrightarrow> (\<forall>(key, r) \<in> set rs. success r)"
  by (induction rs) (auto simp: fieldErrors_Nil fieldErrors_Cons split: if_splits)

lemma validateFields_failure:
  assumes "\<not> (\<forall>(key, r) \<in> set (fieldResults P entries obj). success r)"
  shows "validateFields P entries obj =
           \<lparr>success = False, data = None, errors = Some (fieldErrors (fieldResults P entries obj))\<rparr>"
proof -
  have ne: "fieldErrors (fieldResults P entries obj) \<noteq> []"
    using assms by (simp add: fieldErrors_empty_iff)
  obtain vobj errs where l: "validateFields_loop P entries obj ([], []) = (vobj, errs)"
    by (cases "validateFields_loop P entries obj ([], [])")
  have "errs = fieldErrors (fieldResults P entries obj)"
    using validateFields_loop_errs [of P entries obj "[]" "[]"] l by simp
  then show ?thesis
    using ne by (simp add: validateFields_def l)
qed

lemma validateFields_success:
  assumes "\<forall>(key, r) \<in> set (fieldResults P entries obj). success r"
  shows "\<exists>vobj. validateFields P entries obj = createSuccess (VObj vobj)"
proof -
  have e: "fieldErrors (fieldResults P entries obj) = []"
    using assms by (simp add: fieldErrors_empty_iff)
  obtain vobj errs where l: "validateFields_loop P entries obj ([], []) = (vobj, errs)"
    by (cases "validateFields_loop P entries obj ([], [])")
  have "errs = []"
    using validateFields_loop_errs [of P entries obj "[]" "[]"] l e by simp
  then have "validateFields P entries obj = createSuccess (VObj vobj)"
    by (simp add: validateFields_def l)
  then show ?thesis by blast
qed

lemma validateFields_success_distinct:
  assumes "\<forall>(key, r) \<in> set (fieldResults P entries obj). success r"
    and "distinct (map fst entries)"
    and "''__proto__'' \<notin> fst ` set entries"
  shows "validateFields P entries obj = createSuccess (VObj (fieldData (fieldResults P entries obj)))"
proof -
  have e: "fieldErrors (fieldResults P entries obj) = []"
    using assms(1) by (simp add: fieldErrors_empty_iff)
  obtain vobj errs where l: "validateFields_loop P entries obj ([], []) = (vobj, errs)"
    by (cases "validateFields_loop P entries obj ([], [])")
  have "errs = []"
    using validateFields_loop_errs [of P entries obj "[]" "[]"] l e by simp
  moreover have "vobj = fieldData (fieldResults P entries obj)"
    using validateFields_loop_data [OF assms(2) _ assms(1) assms(3), of "[]" "[]"] l by simp
  ultimately show ?thesis
    by (simp add: validateFields_def l)
qed

section \<open>Every result is well formed\<close>

lemma wellFormed_createError: "wellFormed (createError b message)"
  by (simp add: wellFormed_def createError_def)

lemma wellFormed_createSuccess: "wellFormed (createSuccess d)"
  by (simp add: wellFormed_def createSuccess_def)

lemma wellFormed_handleOptional: "handleOptional b v = Some r \<Longrightarrow> wellFormed r"
  by (auto simp: handleOptional_def wellFormed_createError wellFormed_createSuccess split: if_splits)

lemma wellFormed_validateType: "validateType b v ty nm = Some r \<Longrightarrow> wellFormed r"
  by (auto simp: validateType_def wellFormed_createError split: if_splits)

lemma wellFormed_parseDate: "wellFormed (parseDate P b v)"
  by (cases v) (simp_all add: parseDate_def wellFormed_createError wellFormed_createSuccess)

lemma wellFormed_validateItems: "wellFormed (validateItems f xs)"
proof (cases "\<forall>x \<in> set xs. success (f x)")
  case True
  then show ?thesis by (simp add: validateItems_eq wellFormed_createSuccess)
next
  case False
  then have "itemErrors f xs 0 \<noteq> []" by (simp add: itemErrors_empty_iff)
  then show ?thesis
    unfolding validateItems_eq if_not_P [OF False] by (simp add: wellFormed_def)
qed

lemma wellFormed_validateFields: "wellFormed (validateFields P entries obj)"
proof (cases "\<forall>(key, r) \<in> set (fieldResults P entries obj). success r")
  case True
  from validateFields_success [OF True] show ?thesis
    by (auto simp: wellFormed_createSuccess)
next
  case False
  then have "fieldErrors (fieldResults P entries obj) \<noteq> []" by (simp add: fieldErrors_empty_iff)
  then show ?thesis
    unfolding validateFields_failure [OF False] by (simp add: wellFormed_def)
qed

lemma tryValidators_Some:
  "tryValidators fs v = Some r \<Longrightarrow> \<exists>f \<in> set fs. r = f v \<and> success r"
  by (induction fs) (auto simp: Let_def split: if_splits)

lemma wellFormed_validate: "wellFormed (validate P v x)"
proof (induction v arbitrary: x)
  case (StringValidator b mn mx pat)
  show ?case
    by (auto simp: wellFormed_createError wellFormed_createSuccess
        dest: wellFormed_handleOptional wellFormed_validateType
        split: option.splits jsval.splits)
next
  case (NumberValidator b mn mx i p)
  show ?case
    by (auto simp: wellFormed_createError wellFormed_createSuccess
        dest: wellFormed_handleOptional split: option.splits jsval.splits)
next
  case (BooleanValidator b)
  show ?case
    by (auto simp: wellFormed_createError wellFormed_createSuccess
        dest: wellFormed_handleOptional wellFormed_validateType
        split: option.splits)
next
  case (DateValidator b mn mx)
  show ?case
    by (auto simp: wellFormed_createError wellFormed_createSuccess wellFormed_parseDate Let_def
        dest: wellFormed_handleOptional split: option.splits jsval.splits)
next
  case (ArrayValidator b mn mx item)
  show ?case
    by (auto simp: wellFormed_createError wellFormed_createSuccess wellFormed_validateItems Let_def
        dest: wellFormed_handleOptional split: option.splits jsval.splits)
next
  case (ObjectValidator b schema)
  show ?case
    by (auto simp: wellFormed_createError wellFormed_createSuccess wellFormed_validateFields Let_def
        dest: wellFormed_handleOptional split: option.splits)
next
  case (UnionValidator b alts)
  show ?case
  proof (cases "handleOptional b x")
    case (Some r)
    then show ?thesis by (simp add: wellFormed_handleOptional)
  next
    case None
    show ?thesis
    proof (cases "tryValidators (map (\<lambda>validator. \<lambda>x. validate P validator x) alts) x")
      case None
      show ?thesis by (simp add: \<open>handleOptional b x = None\<close> None wellFormed_createError)
    next
      case (Some r)
      from tryValidators_Some [OF Some] obtain a where "a \<in> set alts" "r = validate P a x"
        by auto
      then have "wellFormed r" using UnionValidator.IH by simp
      then show ?thesis by (simp add: \<open>handleOptional b x = None\<close> Some)
    qed
  qed
next
  case (LiteralValidator b l)
  show ?case
    by (auto simp: wellFormed_createError wellFormed_createSuccess
        dest: wellFormed_handleOptional split: option.splits)
qed

section \<open>Auxiliary facts about single validators\<close>

lemma fieldResults_schema:
  "fieldResults P (map (\<lambda>(key, validator). (key, \<lambda>x. validate P validator x)) schema) v
     = map (\<lambda>(key, validator). (key, validate P validator (getProp P v key))) schema"
  by (induction schema) (auto simp: fieldResults_def)

lemma validate_object_reached:
  assumes "\<not> isNullish v" and "typeof v = ''object''" and "\<not> isArray v"
  shows "validate P (ObjectValidator b schema) v
           = validateFields P (map (\<lambda>(key, validator). (key, \<lambda>x. validate P validator x)) schema) v"
proof -
  let ?r = "validateFields P (map (\<lambda>(key, validator). (key, \<lambda>x. validate P validator x)) schema) v"
  have wf: "wellFormed ?r" by (rule wellFormed_validateFields)
  have "success ?r \<Longrightarrow> createSuccess (dataOf ?r) = ?r"
    using wf by (auto simp: wellFormed_def createSuccess_def dataOf_def)
  then show ?thesis
    using assms by (simp add: handleOptional_def Let_def)
qed

lemma createError_custom:
  "m \<noteq> [] \<Longrightarrow> createError (b\<lparr>v_customMessage := Some m\<rparr>) message
     = \<lparr>success = False, data = None, errors = Some [m]\<rparr>"
  by (simp add: createError_def orElse_def)

lemma success_createError: "\<not> success (createError b message)"
  by (simp add: createError_def)

lemma success_createSuccess: "success (createSuccess d)"
  by (simp add: createSuccess_def)

lemma handleOptional_custom:
  "m \<noteq> [] \<Longrightarrow> handleOptional (b\<lparr>v_customMessage := Some m\<rparr>) x
     = (case handleOptional b x of
          None \<Rightarrow> None
        | Some r \<Rightarrow> Some (if success r then r else \<lparr>success = False, data = None, errors = Some [m]\<rparr>))"
  by (simp add: handleOptional_def createError_custom success_createError success_createSuccess)

lemma validateType_custom:
  "m \<noteq> [] \<Longrightarrow> validateType (b\<lparr>v_customMessage := Some m\<rparr>) x ty nm
     = (case validateType b x ty nm of
          None \<Rightarrow> None
        | Some r \<Rightarrow> Some \<lparr>success = False, data = None, errors = Some [m]\<rparr>)"
  by (simp add: validateType_def createError_custom)

lemma validateType_fails: "validateType b x ty nm = Some r \<Longrightarrow> \<not> success r"
  by (auto simp: validateType_def success_createError split: if_splits)

lemma parseDate_custom:
  "m \<noteq> [] \<Longrightarrow> parseDate P (b\<lparr>v_customMessage := Some m\<rparr>) x
     = (if success (parseDate P b x) then parseDate P b x
        else \<lparr>success = False, data = None, errors = Some [m]\<rparr>)"
  by (cases x) (simp_all add: parseDate_def createError_custom success_createError success_createSuccess)

lemma tryValidators_success: "tryValidators fs v = Some r \<Longrightarrow> success r"
  by (drule tryValidators_Some) blast

lemma withMessage_own_failure:
  assumes m: "m \<noteq> []" and nr: "\<not> reachesChildren P v x"
  shows "validate P (withMessage m v) x =
           (if success (validate P v x) then validate P v x
            else \<lparr>success = False, data = None, errors = Some [m]\<rparr>)"
proof (cases v)
  case (StringValidator b mn mx pat)
  show ?thesis
    unfolding StringValidator withMessage_def
    by (auto simp: handleOptional_custom [OF m] validateType_custom [OF m] createError_custom [OF m]
        success_createError success_createSuccess
        dest: validateType_fails split: option.splits jsval.splits)
next
  case (NumberValidator b mn mx i p)
  show ?thesis
    unfolding NumberValidator withMessage_def
    by (auto simp: handleOptional_custom [OF m] createError_custom [OF m]
        success_createError success_createSuccess
        split: option.splits jsval.splits)
next
  case (BooleanValidator b)
  show ?thesis
    unfolding BooleanValidator withMessage_def
    by (auto simp: handleOptional_custom [OF m] validateType_custom [OF m] createError_custom [OF m]
        success_createError success_createSuccess
        dest: validateType_fails split: option.splits)
next
  case (DateValidator b mn mx)
  show ?thesis
    unfolding DateValidator withMessage_def
    by (auto simp: handleOptional_custom [OF m] parseDate_custom [OF m] createError_custom [OF m]
        success_createError success_createSuccess Let_def
        split: option.splits jsval.splits)
next
  case (ArrayValidator b mn mx item)
  show ?thesis
  proof (cases x)
    case (VArr xs)
    with nr ArrayValidator obtain e where "validateLength P (length xs) mn mx ''Array'' = Some e"
      by auto
    then show ?thesis
      unfolding ArrayValidator withMessage_def VArr
      by (simp add: handleOptional_def createError_custom [OF m] success_createError)
  qed (auto simp: ArrayValidator withMessage_def handleOptional_custom [OF m] createError_custom [OF m]
        success_createError success_createSuccess split: option.splits)
next
  case (ObjectValidator b schema)
  with nr have "isNullish x \<or> typeof x \<noteq> ''object'' \<or> isArray x" by auto
  then show ?thesis
    unfolding ObjectValidator withMessage_def
    by (auto simp: handleOptional_custom [OF m] createError_custom [OF m]
        success_createError success_createSuccess handleOptional_def split: option.splits)
next
  case (UnionValidator b alts)
  show ?thesis
    unfolding UnionValidator withMessage_def
    by (auto simp: handleOptional_custom [OF m] createError_custom [OF m]
        success_createError success_createSuccess
        dest: tryValidators_success split: option.splits)
next
  case (LiteralValidator b l)
  show ?thesis
    unfolding LiteralValidator withMessage_def
    by (auto simp: handleOptional_custom [OF m] createError_custom [OF m]
        success_createError success_createSuccess
        split: option.splits)
qed

lemma withMessage_reaches:
  assumes "reachesChildren P v x"
  shows "validate P (withMessage m v) x = validate P v x"
  using assms
  by (cases "(P, v, x)" rule: reachesChildren.cases)
     (auto simp: withMessage_def handleOptional_def)

lemma orElse_empty: "orElse (Some []) message = orElse None message"
  by (simp add: orElse_def)

lemma createError_empty:
  "createError (b\<lparr>v_customMessage := Some []\<rparr>) message
     = createError (b\<lparr>v_customMessage := None\<rparr>) message"
  by (simp add: createError_def orElse_def)

lemma handleOptional_empty:
  "handleOptional (b\<lparr>v_customMessage := Some []\<rparr>) x
     = handleOptional (b\<lparr>v_customMessage := None\<rparr>) x"
  by (simp add: handleOptional_def createError_empty)

lemma validateType_empty:
  "validateType (b\<lparr>v_customMessage := Some []\<rparr>) x ty nm
     = validateType (b\<lparr>v_customMessage := None\<rparr>) x ty nm"
  by (simp add: validateType_def createError_empty)

lemma parseDate_empty:
  "parseDate P (b\<lparr>v_customMessage := Some []\<rparr>) x
     = parseDate P (b\<lparr>v_customMessage := None\<rparr>) x"
  by (simp add: parseDate_def createError_empty cong: option.case_cong if_cong)

lemma withMessage_empty:
  "validate P (withMessage [] v) x = validate P (set_base ((base v)\<lparr>v_customMessage := None\<rparr>) v) x"
  by (cases v)
     (simp_all add: withMessage_def handleOptional_empty validateType_empty parseDate_empty
        createError_empty Let_def cong: option.case_cong jsval.case_cong if_cong)

lemma tryValidators_find:
  "tryValidators (map (\<lambda>validator. \<lambda>x. validate P validator x) alts) x
     = map_option (\<lambda>a. validate P a x) (find (\<lambda>a. success (validate P a x)) alts)"
  by (induction alts) (simp_all add: Let_def)

lemma js_le_zero: "\<not> isNaN n \<Longrightarrow> js_le n (Fin 0) \<longleftrightarrow> \<not> js_gt n (Fin 0)"
  by (cases n) (simp_all add: js_le_def js_gt_def)

section \<open>Claims\<close>

text \<open>
  C1, as amended: element validation never stops at a failing element. For every array
  validator and every array, \<open>validateItems\<close> applies the child validator at every
  index; when all elements succeed it returns their data in order, and otherwise a
  single failure with exactly one entry per failing element, in index order: the text
  \<open>Item at index i: \<close> followed by that element's errors joined with a comma and a
  space. \<open>validate\<close> returns this result for every array that passes the length
  constraints.
\<close>

theorem array_items_aggregate:
  "validateItems (\<lambda>x. validate P item x) xs =
     (if \<forall>x \<in> set xs. success (validate P item x)
      then createSuccess (VArr (map (\<lambda>x. dataOf (validate P item x)) xs))
      else \<lparr>success = False, data = None,
             errors = Some (concat (map (\<lambda>i. if success (validate P item (xs ! i)) then []
                 else [''Item at index '' @ show_nat i @ '': '' @ joinErrors (validate P item (xs ! i))])
               [0..<length xs]))\<rparr>)
   \<and> (validateLength P (length xs) mn mx ''Array'' = None \<longrightarrow>
        validate P (ArrayValidator b mn mx item) (VArr xs) = validateItems (\<lambda>x. validate P item x) xs)"
proof
  show "validateItems (\<lambda>x. validate P item x) xs =
     (if \<forall>x \<in> set xs. success (validate P item x)
      then createSuccess (VArr (map (\<lambda>x. dataOf (validate P item x)) xs))
      else \<lparr>success = False, data = None,
             errors = Some (concat (map (\<lambda>i. if success (validate P item (xs ! i)) then []
                 else [''Item at index '' @ show_nat i @ '': '' @ joinErrors (validate P item (xs ! i))])
               [0..<length xs]))\<rparr>)"
    by (simp add: validateItems_eq itemErrors_def cong: if_cong)
next
  show "validateLength P (length xs) mn mx ''Array'' = None \<longrightarrow>
        validate P (ArrayValidator b mn mx item) (VArr xs) = validateItems (\<lambda>x. validate P item x) xs"
  proof
    assume len: "validateLength P (length xs) mn mx ''Array'' = None"
    have "success (validateItems (\<lambda>x. validate P item x) xs) \<Longrightarrow>
          createSuccess (dataOf (validateItems (\<lambda>x. validate P item x) xs))
            = validateItems (\<lambda>x. validate P item x) xs"
      by (simp add: validateItems_eq createSuccess_def dataOf_def split: if_splits)
    then show "validate P (ArrayValidator b mn mx item) (VArr xs) = validateItems (\<lambda>x. validate P item x) xs"
      by (simp add: handleOptional_def len Let_def)
  qed
qed

theorem array_items_aggregate_witness:
  "validateLength ref_platform (length [VStr ''a'', VNum (Fin 1), VStr ''c'', VNum (Fin 2)]) None None ''Array'' = None
   \<and> validate ref_platform (Schema_array Schema_string) (VArr [VStr ''a'', VNum (Fin 1), VStr ''c'', VNum (Fin 2)])
       = \<lparr>success = False, data = None,
          errors = Some [''Item at index 1: Value must be a string'', ''Item at index 3: Value must be a string'']\<rparr>"
proof -
  have len: "validateLength ref_platform (length [VStr ''a'', VNum (Fin 1), VStr ''c'', VNum (Fin 2)]) None None ''Array'' = None"
    by (simp add: validateLength_def)
  have items: "validateItems (\<lambda>x. validate ref_platform Schema_string x) [VStr ''a'', VNum (Fin 1), VStr ''c'', VNum (Fin 2)]
       = \<lparr>success = False, data = None,
          errors = Some [''Item at index 1: Value must be a string'', ''Item at index 3: Value must be a string'']\<rparr>"
    by code_simp
  show ?thesis
    using len items
      array_items_aggregate [of ref_platform Schema_string "[VStr ''a'', VNum (Fin 1), VStr ''c'', VNum (Fin 2)]" None None new_base]
    by (simp add: Schema_array_def)
qed

text \<open>
  The claim as stated gives a failing element one entry per error of its own. The inner
  array below fails with two errors and contributes a single entry to the outer list;
  and an array that is too short is rejected before any element is validated.
\<close>

theorem array_entry_per_child_error_counterexample:
  "errors (validate ref_platform (Schema_array Schema_string) (VArr [VNum (Fin 1), VNum (Fin 2)]))
     = Some [''Item at index 0: Value must be a string'', ''Item at index 1: Value must be a string'']
   \<and> errors (validate ref_platform (Schema_array (Schema_array Schema_string)) (VArr [VArr [VNum (Fin 1), VNum (Fin 2)]]))
     = Some [''Item at index 0: Item at index 0: Value must be a string, Item at index 1: Value must be a string'']
   \<and> errors (validate ref_platform (ArrayValidator new_base (Some (Fin 3)) None Schema_string) (VArr [VNum (Fin 1)]))
     = Some [''Array must have at least 3 items'']"
  by code_simp

text \<open>
  C2, as amended: for every object validator whose schema declares no field named
  \<open>__proto__\<close> (its keys are distinct, the schema being an object) and every input
  that is an object and not an array, \<open>validate\<close> runs the validator of every declared
  field on the input's property of that name, own or inherited (\<open>undefined\<close> when
  there is none). When all succeed, the result is a new object holding, in schema
  order, exactly the declared fields whose data is not \<open>undefined\<close>; otherwise it is a
  single failure with exactly one entry per failing field, in schema order: the text
  \<open>Field 'name': \<close> followed by that field's errors joined with a comma and a space.
  Only declared keys are read, so other keys of the input are neither validated, copied
  nor reported, and \<open>strict()\<close> changes nothing on such inputs.
\<close>

theorem object_fields_aggregate:
  assumes "\<not> isNullish v" and "typeof v = ''object''" and "\<not> isArray v"
    and "distinct (map fst schema)" and "''__proto__'' \<notin> fst ` set schema"
  shows "validate P (ObjectValidator b schema) v =
     (let rs = map (\<lambda>(key, validator). (key, validate P validator (getProp P v key))) schema in
      if \<forall>(key, r) \<in> set rs. success r
      then createSuccess (VObj (concat (map (\<lambda>(key, r).
               if dataOf r \<noteq> VUndefined then [(key, dataOf r)] else []) rs)))
      else \<lparr>success = False, data = None,
             errors = Some (concat (map (\<lambda>(key, r). if success r then []
                 else [''Field '' @ [CHR 0x27] @ key @ [CHR 0x27] @ '': '' @ joinErrors r]) rs))\<rparr>)
   \<and> validate P (strict (ObjectValidator b schema)) v = validate P (ObjectValidator b schema) v"
proof
  let ?entries = "map (\<lambda>(key, validator). (key, \<lambda>x. validate P validator x)) schema"
  let ?rs = "map (\<lambda>(key, validator). (key, validate P validator (getProp P v key))) schema"
  have rs: "fieldResults P ?entries v = ?rs" by (rule fieldResults_schema)
  have keys: "map fst ?entries = map fst schema"
    by (simp add: comp_def case_prod_unfold)
  have d: "distinct (map fst ?entries)"
    using assms(4) by (simp only: keys)
  have np: "''__proto__'' \<notin> fst ` set ?entries"
    using assms(5) keys by (metis list.set_map)
  have "validateFields P ?entries v =
     (if \<forall>(key, r) \<in> set ?rs. success r then createSuccess (VObj (fieldData ?rs))
      else \<lparr>success = False, data = None, errors = Some (fieldErrors ?rs)\<rparr>)"
  proof (cases "\<forall>(key, r) \<in> set ?rs. success r")
    case True
    have "\<forall>(key, r) \<in> set (fieldResults P ?entries v). success r"
      unfolding rs by (rule True)
    then have "validateFields P ?entries v = createSuccess (VObj (fieldData (fieldResults P ?entries v)))"
      using d np by (rule validateFields_success_distinct)
    then show ?thesis unfolding if_P [OF True] rs .
  next
    case False
    have "\<not> (\<forall>(key, r) \<in> set (fieldResults P ?entries v). success r)"
      unfolding rs by (rule False)
    then have "validateFields P ?entries v =
        \<lparr>success = False, data = None, errors = Some (fieldErrors (fieldResults P ?entries v))\<rparr>"
      by (rule validateFields_failure)
    then show ?thesis unfolding if_not_P [OF False] rs .
  qed
  then show "validate P (ObjectValidator b schema) v =
     (let rs = ?rs in
      if \<forall>(key, r) \<in> set rs. success r
      then createSuccess (VObj (concat (map (\<lambda>(key, r).
               if dataOf r \<noteq> VUndefined then [(key, dataOf r)] else []) rs)))
      else \<lparr>success = False, data = None,
             errors = Some (concat (map (\<lambda>(key, r). if success r then []
                 else [''Field '' @ [CHR 0x27] @ key @ [CHR 0x27] @ '': '' @ joinErrors r]) rs))\<rparr>)"
    unfolding validate_object_reached [OF assms(1-3)] Let_def fieldData_def fieldErrors_def .
next
  show "validate P (strict (ObjectValidator b schema)) v = validate P (ObjectValidator b schema) v"
    unfolding strict_def withMessage_def set_base.simps base.simps
    by (simp only: validate_object_reached [OF assms(1-3)])
qed

theorem object_fields_aggregate_witness:
  "\<not> isNullish (VObj [(''a'', VNum (Fin 1)), (''extra'', VBool True), (''b'', VStr ''x'')])
   \<and> distinct (map fst [(''a'', Schema_string), (''b'', Schema_number), (''c'', optional Schema_boolean)])
   \<and> ''__proto__'' \<notin> fst ` set [(''a'', Schema_string), (''b'', Schema_number), (''c'', optional Schema_boolean)]
   \<and> validate ref_platform (Schema_object [(''a'', Schema_string), (''b'', Schema_number), (''c'', optional Schema_boolean)])
        (VObj [(''a'', VNum (Fin 1)), (''extra'', VBool True), (''b'', VStr ''x'')])
       = \<lparr>success = False, data = None,
          errors = Some [''Field 'a': Value must be a string'', ''Field 'b': Value must be a number'']\<rparr>
   \<and> validate ref_platform (strict (Schema_object [(''a'', Schema_string), (''b'', Schema_number), (''c'', optional Schema_boolean)]))
        (VObj [(''a'', VStr ''x''), (''extra'', VBool True), (''b'', VNum (Fin 1))])
       = createSuccess (VObj [(''a'', VStr ''x''), (''b'', VNum (Fin 1))])
   \<and> validate ref_platform (Schema_object [(''toString'', optional Schema_string)]) (VObj [])
       = \<lparr>success = False, data = None, errors = Some [''Field 'toString': Value must be a string'']\<rparr>"
proof -
  let ?schema = "[(''a'', Schema_string), (''b'', Schema_number), (''c'', optional Schema_boolean)]"
  let ?inh = "[(''toString'', optional Schema_string)]"
  let ?bad = "VObj [(''a'', VNum (Fin 1)), (''extra'', VBool True), (''b'', VStr ''x'')]"
  let ?good = "VObj [(''a'', VStr ''x''), (''extra'', VBool True), (''b'', VNum (Fin 1))]"
  have h: "\<not> isNullish ?bad" "typeof ?bad = ''object''" "\<not> isArray ?bad"
    "\<not> isNullish ?good" "typeof ?good = ''object''" "\<not> isArray ?good"
    "\<not> isNullish (VObj [])" "typeof (VObj []) = ''object''" "\<not> isArray (VObj [])"
    by simp_all
  have d: "distinct (map fst ?schema)" "distinct (map fst ?inh)" by simp_all
  have np: "''__proto__'' \<notin> fst ` set ?schema" "''__proto__'' \<notin> fst ` set ?inh" by simp_all
  have e1: "(let rs = map (\<lambda>(key, validator). (key, validate ref_platform validator (getProp ref_platform ?bad key))) ?schema in
      if \<forall>(key, r) \<in> set rs. success r
      then createSuccess (VObj (concat (map (\<lambda>(key, r).
               if dataOf r \<noteq> VUndefined then [(key, dataOf r)] else []) rs)))
      else \<lparr>success = False, data = None,
             errors = Some (concat (map (\<lambda>(key, r). if success r then []
                 else [''Field '' @ [CHR 0x27] @ key @ [CHR 0x27] @ '': '' @ joinErrors r]) rs))\<rparr>)
     = \<lparr>success = False, data = None,
          errors = Some [''Field 'a': Value must be a string'', ''Field 'b': Value must be a number'']\<rparr>"
    by code_simp
  have e2: "validate ref_platform (ObjectValidator new_base ?schema) ?good
     = createSuccess (VObj [(''a'', VStr ''x''), (''b'', VNum (Fin 1))])"
    by code_simp
  have e3: "(let rs = map (\<lambda>(key, validator). (key, validate ref_platform validator (getProp ref_platform (VObj []) key))) ?inh in
      if \<forall>(key, r) \<in> set rs. success r
      then createSuccess (VObj (concat (map (\<lambda>(key, r).
               if dataOf r \<noteq> VUndefined then [(key, dataOf r)] else []) rs)))
      else \<lparr>success = False, data = None,
             errors = Some (concat (map (\<lambda>(key, r). if success r then []
                 else [''Field '' @ [CHR 0x27] @ key @ [CHR 0x27] @ '': '' @ joinErrors r]) rs))\<rparr>)
     = \<lparr>success = False, data = None, errors = Some [''Field 'toString': Value must be a string'']\<rparr>"
    by code_simp
  note t1 = object_fields_aggregate [OF h(1-3) d(1) np(1), of ref_platform new_base]
  note t2 = object_fields_aggregate [OF h(4-6) d(1) np(1), of ref_platform new_base]
  note t3 = object_fields_aggregate [OF h(7-9) d(2) np(2), of ref_platform new_base]
  have r1: "validate ref_platform (Schema_object ?schema) ?bad
       = \<lparr>success = False, data = None,
          errors = Some [''Field 'a': Value must be a string'', ''Field 'b': Value must be a number'']\<rparr>"
    unfolding Schema_object_def using t1 e1 by (simp only:)
  have r2: "validate ref_platform (strict (Schema_object ?schema)) ?good
       = createSuccess (VObj [(''a'', VStr ''x''), (''b'', VNum (Fin 1))])"
    unfolding Schema_object_def using t2 e2 by (simp only:)
  have r3: "validate ref_platform (Schema_object ?inh) (VObj [])
       = \<lparr>success = False, data = None, errors = Some [''Field 'toString': Value must be a string'']\<rparr>"
    unfolding Schema_object_def using t3 e3 by (simp only:)
  show ?thesis
    using h(1) d(1) np(1) r1 r2 r3 by (intro conjI) assumption+
qed

text \<open>
  The claim as stated gives a failing field one entry per error of its child, and has
  every declared field with defined data written into the result. The field \<open>tags\<close>
  below fails with two errors and contributes a single entry; and the data of a declared
  field named \<open>__proto__\<close> is validated and then not stored, as the assignment goes to
  the setter that the result object inherits.
\<close>

theorem object_entry_per_child_error_counterexample:
  "errors (validate ref_platform (Schema_array Schema_string) (VArr [VNum (Fin 1), VBool True]))
     = Some [''Item at index 0: Value must be a string'', ''Item at index 1: Value must be a string'']
   \<and> errors (validate ref_platform (Schema_object [(''tags'', Schema_array Schema_string)])
               (VObj [(''tags'', VArr [VNum (Fin 1), VBool True])]))
     = Some [''Field 'tags': Item at index 0: Value must be a string, Item at index 1: Value must be a string'']
   \<and> validate ref_platform (Schema_object [(''__proto__'', Schema_string)]) (VObj [(''__proto__'', VStr ''x'')])
     = \<lparr>success = True, data = Some (VObj []), errors = None\<rparr>"
  by code_simp

text \<open>
  C3: a custom message, once configured, stands in for the default message of every
  failure of that same validator, and never touches the errors of its children. Let
  a validator be given a custom message. When the message is not empty: on every input
  that does not reach the validator's children, a failure becomes the failure whose
  only error is the custom message and a success is unchanged; on every input that
  reaches the children of an array or object validator, the result (the success, or the
  aggregated list of item or field errors) is the one without the custom message. The
  empty string is what \<open>createError\<close> takes for no custom message
  (\<open>this._customMessage || message\<close>): configuring it is the same as configuring none.
\<close>

theorem custom_message_scope:
  "(m \<noteq> [] \<and> \<not> reachesChildren P v x \<longrightarrow>
      validate P (withMessage m v) x =
        (if success (validate P v x) then validate P v x
         else \<lparr>success = False, data = None, errors = Some [m]\<rparr>))
   \<and> (m \<noteq> [] \<and> reachesChildren P v x \<longrightarrow> validate P (withMessage m v) x = validate P v x)
   \<and> validate P (withMessage [] v) x = validate P (set_base ((base v)\<lparr>v_customMessage := None\<rparr>) v) x"
proof (intro conjI impI)
  show "validate P (withMessage m v) x =
        (if success (validate P v x) then validate P v x
         else \<lparr>success = False, data = None, errors = Some [m]\<rparr>)"
    if "m \<noteq> [] \<and> \<not> reachesChildren P v x"
    using that withMessage_own_failure by blast
  show "validate P (withMessage m v) x = validate P v x" if "m \<noteq> [] \<and> reachesChildren P v x"
    using that withMessage_reaches by blast
  show "validate P (withMessage [] v) x = validate P (set_base ((base v)\<lparr>v_customMessage := None\<rparr>) v) x"
    by (rule withMessage_empty)
qed

theorem custom_message_scope_witness:
  "''Name is required'' \<noteq> []
   \<and> \<not> reachesChildren ref_platform Schema_string (VNum (Fin 123))
   \<and> validate ref_platform (withMessage ''Name is required'' Schema_string) (VNum (Fin 123))
       = \<lparr>success = False, data = None, errors = Some [''Name is required'']\<rparr>
   \<and> reachesChildren ref_platform (Schema_array Schema_string) (VArr [VNum (Fin 1)])
   \<and> validate ref_platform (withMessage ''Bad list'' (Schema_array Schema_string)) (VArr [VNum (Fin 1)])
       = \<lparr>success = False, data = None, errors = Some [''Item at index 0: Value must be a string'']\<rparr>
   \<and> validate ref_platform (withMessage [] Schema_string) (VNum (Fin 5))
       = \<lparr>success = False, data = None, errors = Some [''Value must be a string'']\<rparr>"
proof -
  have m: "''Name is required'' \<noteq> []" "''Bad list'' \<noteq> []" by simp_all
  have a: "\<not> reachesChildren ref_platform Schema_string (VNum (Fin 123))"
    by code_simp
  have b: "\<not> success (validate ref_platform Schema_string (VNum (Fin 123)))"
    by code_simp
  have c: "reachesChildren ref_platform (Schema_array Schema_string) (VArr [VNum (Fin 1)])"
    by code_simp
  have d: "validate ref_platform (Schema_array Schema_string) (VArr [VNum (Fin 1)])
       = \<lparr>success = False, data = None, errors = Some [''Item at index 0: Value must be a string'']\<rparr>"
    by code_simp
  have e: "validate ref_platform (set_base ((base Schema_string)\<lparr>v_customMessage := None\<rparr>) Schema_string) (VNum (Fin 5))
       = \<lparr>success = False, data = None, errors = Some [''Value must be a string'']\<rparr>"
    by code_simp
  note t1 = custom_message_scope [of "''Name is required''" ref_platform Schema_string "VNum (Fin 123)"]
  note t2 = custom_message_scope [of "''Bad list''" ref_platform "Schema_array Schema_string" "VArr [VNum (Fin 1)]"]
  note t3 = custom_message_scope [of "[]" ref_platform Schema_string "VNum (Fin 5)"]
  have r1: "validate ref_platform (withMessage ''Name is required'' Schema_string) (VNum (Fin 123))
       = \<lparr>success = False, data = None, errors = Some [''Name is required'']\<rparr>"
    using t1 m(1) a b by (simp del: validate.simps)
  have r2: "validate ref_platform (withMessage ''Bad list'' (Schema_array Schema_string)) (VArr [VNum (Fin 1)])
       = \<lparr>success = False, data = None, errors = Some [''Item at index 0: Value must be a string'']\<rparr>"
    using t2 m(2) c d by (simp del: validate.simps)
  have r3: "validate ref_platform (withMessage [] Schema_string) (VNum (Fin 5))
       = \<lparr>success = False, data = None, errors = Some [''Value must be a string'']\<rparr>"
    using t3 e by (simp del: validate.simps)
  show ?thesis
    using m(1) a r1 c r2 r3 by (intro conjI) assumption+
qed

text \<open>
  C4: for every validator kind and for the input \<open>null\<close> or \<open>undefined\<close>: if
  the validator is optional, \<open>validate\<close> returns success with data \<open>undefined\<close>;
  otherwise it fails with a single error, which is \<open>Value is required\<close>, or the
  custom message when one is set (and is not the empty string, which \<open>||\<close> skips).
\<close>

theorem nullish_input:
  assumes "isNullish x"
  shows "validate P v x =
     (if v_optional (base v) then \<lparr>success = True, data = Some VUndefined, errors = None\<rparr>
      else \<lparr>success = False, data = None,
             errors = Some [case v_customMessage (base v) of
                              None \<Rightarrow> ''Value is required''
                            | Some m \<Rightarrow> if m = [] then ''Value is required'' else m]\<rparr>)"
  using assms
  by (cases v) (simp_all add: handleOptional_def createError_def createSuccess_def orElse_def)

theorem nullish_input_witness:
  "isNullish VNull \<and> isNullish VUndefined
   \<and> validate ref_platform (optional Schema_boolean) VUndefined
       = \<lparr>success = True, data = Some VUndefined, errors = None\<rparr>
   \<and> validate ref_platform Schema_date VNull
       = \<lparr>success = False, data = None, errors = Some [''Value is required'']\<rparr>
   \<and> validate ref_platform (withMessage ''Missing'' (Schema_union [Schema_string])) VNull
       = \<lparr>success = False, data = None, errors = Some [''Missing'']\<rparr>"
proof -
  have n: "isNullish VNull" "isNullish VUndefined" by simp_all
  show ?thesis
    using n nullish_input [OF n(2), of ref_platform "optional Schema_boolean"]
      nullish_input [OF n(1), of ref_platform Schema_date]
      nullish_input [OF n(1), of ref_platform "withMessage ''Missing'' (Schema_union [Schema_string])"]
    by (simp add: optional_def withMessage_def Schema_boolean_def Schema_date_def Schema_union_def new_base_def)
qed

text \<open>
  C5, as amended: for every union validator and every input that is neither \<open>null\<close>
  nor \<open>undefined\<close>, \<open>validate\<close> returns unchanged the result of the first
  alternative, in list order, that succeeds on the input. If none succeeds it fails
  with a single error and drops the errors of the alternatives: the error is
  \<open>Value does not match any of the allowed types\<close>, or the union's own custom message
  when a non-empty one is set.
\<close>

theorem union_first_success:
  assumes "\<not> isNullish x"
  shows "validate P (UnionValidator b alts) x =
     (case find (\<lambda>a. success (validate P a x)) alts of
        Some a \<Rightarrow> validate P a x
      | None \<Rightarrow> \<lparr>success = False, data = None,
                  errors = Some [case v_customMessage b of
                                   None \<Rightarrow> ''Value does not match any of the allowed types''
                                 | Some m \<Rightarrow> if m = [] then ''Value does not match any of the allowed types'' else m]\<rparr>)"
  using assms
  by (simp add: handleOptional_def tryValidators_find createError_def orElse_def split: option.splits)

theorem union_first_success_witness:
  "\<not> isNullish (VStr ''2023-01-01'')
   \<and> validate ref_platform (Schema_union [Schema_number, Schema_date, Schema_string]) (VStr ''2023-01-01'')
       = \<lparr>success = True, data = Some (VDate (Fin 1672531200000)), errors = None\<rparr>
   \<and> validate ref_platform (Schema_union [Schema_number, Schema_string, Schema_date]) (VStr ''2023-01-01'')
       = \<lparr>success = True, data = Some (VStr ''2023-01-01''), errors = None\<rparr>
   \<and> validate ref_platform (Schema_union [Schema_number, Schema_boolean]) (VStr ''2023-01-01'')
       = \<lparr>success = False, data = None, errors = Some [''Value does not match any of the allowed types'']\<rparr>"
proof -
  let ?x = "VStr ''2023-01-01''"
  let ?generic = "\<lparr>success = False, data = None,
                  errors = Some [case v_customMessage new_base of
                                   None \<Rightarrow> ''Value does not match any of the allowed types''
                                 | Some m \<Rightarrow> if m = [] then ''Value does not match any of the allowed types'' else m]\<rparr>"
  have n: "\<not> isNullish ?x" by simp
  have a: "(case find (\<lambda>a. success (validate ref_platform a ?x)) [Schema_number, Schema_date, Schema_string] of
        Some a \<Rightarrow> validate ref_platform a ?x | None \<Rightarrow> ?generic)
      = \<lparr>success = True, data = Some (VDate (Fin 1672531200000)), errors = None\<rparr>"
    by code_simp
  have b: "(case find (\<lambda>a. success (validate ref_platform a ?x)) [Schema_number, Schema_string, Schema_date] of
        Some a \<Rightarrow> validate ref_platform a ?x | None \<Rightarrow> ?generic)
      = \<lparr>success = True, data = Some (VStr ''2023-01-01''), errors = None\<rparr>"
    by code_simp
  have c: "(case find (\<lambda>a. success (validate ref_platform a ?x)) [Schema_number, Schema_boolean] of
        Some a \<Rightarrow> validate ref_platform a ?x | None \<Rightarrow> ?generic)
      = \<lparr>success = False, data = None, errors = Some [''Value does not match any of the allowed types'']\<rparr>"
    by code_simp
  have r1: "validate ref_platform (Schema_union [Schema_number, Schema_date, Schema_string]) ?x
       = \<lparr>success = True, data = Some (VDate (Fin 1672531200000)), errors = None\<rparr>"
    unfolding Schema_union_def union_first_success [OF n] by (rule a)
  have r2: "validate ref_platform (Schema_union [Schema_number, Schema_string, Schema_date]) ?x
       = \<lparr>success = True, data = Some (VStr ''2023-01-01''), errors = None\<rparr>"
    unfolding Schema_union_def union_first_success [OF n] by (rule b)
  have r3: "validate ref_platform (Schema_union [Schema_number, Schema_boolean]) ?x
       = \<lparr>success = False, data = None, errors = Some [''Value does not match any of the allowed types'']\<rparr>"
    unfolding Schema_union_def union_first_success [OF n] by (rule c)
  show ?thesis
    using n r1 r2 r3 by (intro conjI) assumption+
qed

text \<open>
  The claim as stated names the generic message for every union validator. A union
  with a custom message reports that message instead.
\<close>

theorem union_custom_message_counterexample:
  "validate ref_platform (withMessage ''Expected text or a number'' (Schema_union [Schema_string, Schema_number])) (VBool True)
     = \<lparr>success = False, data = None, errors = Some [''Expected text or a number'']\<rparr>"
  by code_simp

text \<open>
  C6: for every number validator and every number that is not NaN, the result is decided
  by the first violated constraint in the order range (minimum, then maximum; a value
  equal to a bound passes), integer, positive (strictly greater than zero): the single
  error made from that constraint's message, or success with the number when no
  configured constraint is violated.
\<close>

theorem number_constraint_order:
  assumes "\<not> isNaN n"
  shows "validate P (NumberValidator b mn mx integerFlag positiveFlag) (VNum n) =
     (case find (\<lambda>(violated, message). violated n) (numberConstraints P mn mx integerFlag positiveFlag) of
        Some (violated, message) \<Rightarrow> createError b message
      | None \<Rightarrow> createSuccess (VNum n))"
  using assms
  by (cases mn; cases mx)
     (simp_all add: handleOptional_def validateRange_def numberConstraints_def js_le_zero)

theorem number_constraint_order_witness:
  "\<not> isNaN (Fin (- 1))
   \<and> validate ref_platform (NumberValidator new_base (Some (Fin 0)) (Some (Fin 100)) True True) (VNum (Fin (- 1)))
       = \<lparr>success = False, data = None, errors = Some [''Number must be at least 0'']\<rparr>
   \<and> validate ref_platform (NumberValidator new_base (Some (Fin 0)) (Some (Fin 100)) True True) (VNum (Fin 150))
       = \<lparr>success = False, data = None, errors = Some [''Number must be no more than 100'']\<rparr>
   \<and> validate ref_platform (NumberValidator new_base (Some (Fin (- 5))) None True True) (VNum (Fin (- 3 / 2)))
       = \<lparr>success = False, data = None, errors = Some [''Number must be an integer'']\<rparr>
   \<and> validate ref_platform (NumberValidator new_base (Some (Fin 0)) (Some (Fin 100)) True True) (VNum (Fin 0))
       = \<lparr>success = False, data = None, errors = Some [''Number must be positive'']\<rparr>
   \<and> validate ref_platform (NumberValidator new_base (Some (Fin 0)) (Some (Fin 100)) True True) (VNum (Fin 100))
       = \<lparr>success = True, data = Some (VNum (Fin 100)), errors = None\<rparr>"
proof -
  let ?cs = "numberConstraints ref_platform (Some (Fin 0)) (Some (Fin 100)) True True"
  have n: "\<not> isNaN (Fin (- 1))" "\<not> isNaN (Fin 150)" "\<not> isNaN (Fin (- 3 / 2))" "\<not> isNaN (Fin 0)" "\<not> isNaN (Fin 100)"
    by simp_all
  have e1: "(case find (\<lambda>(violated, message). violated (Fin (- 1))) ?cs of
        Some (violated, message) \<Rightarrow> createError new_base message | None \<Rightarrow> createSuccess (VNum (Fin (- 1))))
      = \<lparr>success = False, data = None, errors = Some [''Number must be at least 0'']\<rparr>"
    by code_simp
  have e2: "(case find (\<lambda>(violated, message). violated (Fin 150)) ?cs of
        Some (violated, message) \<Rightarrow> createError new_base message | None \<Rightarrow> createSuccess (VNum (Fin 150)))
      = \<lparr>success = False, data = None, errors = Some [''Number must be no more than 100'']\<rparr>"
    by code_simp
  have e3: "(case find (\<lambda>(violated, message). violated (Fin (- 3 / 2))) (numberConstraints ref_platform (Some (Fin (- 5))) None True True) of
        Some (violated, message) \<Rightarrow> createError new_base message | None \<Rightarrow> createSuccess (VNum (Fin (- 3 / 2))))
      = \<lparr>success = False, data = None, errors = Some [''Number must be an integer'']\<rparr>"
    by code_simp
  have e4: "(case find (\<lambda>(violated, message). violated (Fin 0)) ?cs of
        Some (violated, message) \<Rightarrow> createError new_base message | None \<Rightarrow> createSuccess (VNum (Fin 0)))
      = \<lparr>success = False, data = None, errors = Some [''Number must be positive'']\<rparr>"
    by code_simp
  have e5: "(case find (\<lambda>(violated, message). violated (Fin 100)) ?cs of
        Some (violated, message) \<Rightarrow> createError new_base message | None \<Rightarrow> createSuccess (VNum (Fin 100)))
      = \<lparr>success = True, data = Some (VNum (Fin 100)), errors = None\<rparr>"
    by code_simp
  have r1: "validate ref_platform (NumberValidator new_base (Some (Fin 0)) (Some (Fin 100)) True True) (VNum (Fin (- 1)))
       = \<lparr>success = False, data = None, errors = Some [''Number must be at least 0'']\<rparr>"
    unfolding number_constraint_order [OF n(1)] by (rule e1)
  have r2: "validate ref_platform (NumberValidator new_base (Some (Fin 0)) (Some (Fin 100)) True True) (VNum (Fin 150))
       = \<lparr>success = False, data = None, errors = Some [''Number must be no more than 100'']\<rparr>"
    unfolding number_constraint_order [OF n(2)] by (rule e2)
  have r3: "validate ref_platform (NumberValidator new_base (Some (Fin (- 5))) None True True) (VNum (Fin (- 3 / 2)))
       = \<lparr>success = False, data = None, errors = Some [''Number must be an integer'']\<rparr>"
    unfolding number_constraint_order [OF n(3)] by (rule e3)
  have r4: "validate ref_platform (NumberValidator new_base (Some (Fin 0)) (Some (Fin 100)) True True) (VNum (Fin 0))
       = \<lparr>success = False, data = None, errors = Some [''Number must be positive'']\<rparr>"
    unfolding number_constraint_order [OF n(4)] by (rule e4)
  have r5: "validate ref_platform (NumberValidator new_base (Some (Fin 0)) (Some (Fin 100)) True True) (VNum (Fin 100))
       = \<lparr>success = True, data = Some (VNum (Fin 100)), errors = None\<rparr>"
    unfolding number_constraint_order [OF n(5)] by (rule e5)
  show ?thesis
    using n(1) r1 r2 r3 r4 r5 by (intro conjI) assumption+
qed

text \<open>
  C7, as amended: for every date validator, validating a string or a number is
  validating the Date object that the platform's date constructor makes of it. A Date
  object with a valid time value is taken as it is: it is checked against the bounds,
  and a validator without bounds returns it as the data. A Date object with an invalid
  time value fails with \<open>Value must be a valid date\<close>, and an input that is none of
  Date, string, number, \<open>null\<close>, \<open>undefined\<close> fails with
  \<open>Value must be a Date, string, or number\<close>; a non-empty custom message of the
  validator replaces either text.
\<close>

theorem date_parse:
  "validate P (DateValidator b mn mx) (VStr s) = validate P (DateValidator b mn mx) (VDate (dateOfString P s))
   \<and> validate P (DateValidator b mn mx) (VNum n) = validate P (DateValidator b mn mx) (VDate (dateOfNumber P n))
   \<and> (\<not> isNaN t \<longrightarrow>
        validate P (DateValidator b mn mx) (VDate t) =
          (case validateDateRange P mn mx t of
             None \<Rightarrow> \<lparr>success = True, data = Some (VDate t), errors = None\<rparr>
           | Some rangeError \<Rightarrow> createError b rangeError)
        \<and> validate P (DateValidator b None None) (VDate t) = \<lparr>success = True, data = Some (VDate t), errors = None\<rparr>)
   \<and> (isNaN t \<longrightarrow>
        validate P (DateValidator b mn mx) (VDate t) =
          \<lparr>success = False, data = None,
            errors = Some [case v_customMessage b of
                             None \<Rightarrow> ''Value must be a valid date''
                           | Some m \<Rightarrow> if m = [] then ''Value must be a valid date'' else m]\<rparr>)
   \<and> (\<not> isNullish x \<and> \<not> isDate x \<and> typeof x \<noteq> ''string'' \<and> typeof x \<noteq> ''number'' \<longrightarrow>
        validate P (DateValidator b mn mx) x =
          \<lparr>success = False, data = None,
            errors = Some [case v_customMessage b of
                             None \<Rightarrow> ''Value must be a Date, string, or number''
                           | Some m \<Rightarrow> if m = [] then ''Value must be a Date, string, or number'' else m]\<rparr>)"
proof (intro conjI impI)
  show "validate P (DateValidator b mn mx) (VStr s) = validate P (DateValidator b mn mx) (VDate (dateOfString P s))"
    by (simp add: handleOptional_def parseDate_def)
  show "validate P (DateValidator b mn mx) (VNum n) = validate P (DateValidator b mn mx) (VDate (dateOfNumber P n))"
    by (simp add: handleOptional_def parseDate_def)
  show "validate P (DateValidator b mn mx) (VDate t) =
          (case validateDateRange P mn mx t of
             None \<Rightarrow> \<lparr>success = True, data = Some (VDate t), errors = None\<rparr>
           | Some rangeError \<Rightarrow> createError b rangeError)" if "\<not> isNaN t"
    using that
    by (simp add: handleOptional_def parseDate_def createSuccess_def dataOf_def split: option.splits)
  show "validate P (DateValidator b None None) (VDate t) = \<lparr>success = True, data = Some (VDate t), errors = None\<rparr>"
    if "\<not> isNaN t"
    using that
    by (simp add: handleOptional_def parseDate_def createSuccess_def dataOf_def validateDateRange_def)
  show "validate P (DateValidator b mn mx) (VDate t) =
          \<lparr>success = False, data = None,
            errors = Some [case v_customMessage b of
                             None \<Rightarrow> ''Value must be a valid date''
                           | Some m \<Rightarrow> if m = [] then ''Value must be a valid date'' else m]\<rparr>" if "isNaN t"
    using that
    by (simp add: handleOptional_def parseDate_def createError_def orElse_def)
  show "validate P (DateValidator b mn mx) x =
          \<lparr>success = False, data = None,
            errors = Some [case v_customMessage b of
                             None \<Rightarrow> ''Value must be a Date, string, or number''
                           | Some m \<Rightarrow> if m = [] then ''Value must be a Date, string, or number'' else m]\<rparr>"
    if "\<not> isNullish x \<and> \<not> isDate x \<and> typeof x \<noteq> ''string'' \<and> typeof x \<noteq> ''number''"
    using that
    by (cases x) (simp_all add: handleOptional_def parseDate_def createError_def orElse_def)
qed

theorem date_parse_witness:
  "\<not> isNaN (dateOfString ref_platform ''2023-01-01'')
   \<and> validate ref_platform Schema_date (VStr ''2023-01-01'')
       = \<lparr>success = True, data = Some (VDate (dateOfString ref_platform ''2023-01-01'')), errors = None\<rparr>
   \<and> dateOfString ref_platform ''2023-01-01'' = Fin 1672531200000
   \<and> isNaN (dateOfString ref_platform ''not a date'')
   \<and> validate ref_platform Schema_date (VStr ''not a date'')
       = \<lparr>success = False, data = None, errors = Some [''Value must be a valid date'']\<rparr>
   \<and> validate ref_platform Schema_date (VBool True)
       = \<lparr>success = False, data = None, errors = Some [''Value must be a Date, string, or number'']\<rparr>"
proof -
  let ?t = "dateOfString ref_platform ''2023-01-01''"
  let ?u = "dateOfString ref_platform ''not a date''"
  have t: "?t = Fin 1672531200000" by code_simp
  have u: "?u = NaN" by code_simp
  have nt: "\<not> isNaN ?t" by (simp add: t)
  have nu: "isNaN ?u" by (simp add: u)
  have h: "\<not> isNullish (VBool True) \<and> \<not> isDate (VBool True)
      \<and> typeof (VBool True) \<noteq> ''string'' \<and> typeof (VBool True) \<noteq> ''number''"
    by simp
  note th1 = date_parse [of ref_platform new_base None None "''2023-01-01''" "Fin 0" ?t "VBool True"]
  note th2 = date_parse [of ref_platform new_base None None "''not a date''" "Fin 0" ?u "VBool True"]
  have r1: "validate ref_platform Schema_date (VStr ''2023-01-01'')
       = \<lparr>success = True, data = Some (VDate ?t), errors = None\<rparr>"
    using th1 nt unfolding Schema_date_def by (simp add: validateDateRange_def del: validate.simps)
  have r2: "validate ref_platform Schema_date (VStr ''not a date'')
       = \<lparr>success = False, data = None, errors = Some [''Value must be a valid date'']\<rparr>"
    using th2 nu unfolding Schema_date_def by (simp add: new_base_def del: validate.simps)
  have r3: "validate ref_platform Schema_date (VBool True)
       = \<lparr>success = False, data = None, errors = Some [''Value must be a Date, string, or number'']\<rparr>"
    using th1 h unfolding Schema_date_def by (simp add: new_base_def del: validate.simps)
  show ?thesis
    using nt r1 t nu r2 r3 by (intro conjI) assumption+
qed

text \<open>
  The claim as stated names the two messages for every date validator and every input of
  another type. A date validator with a custom message (as \<open>future()\<close> and
  \<open>past()\<close> install) reports that message in both cases, and \<open>null\<close> is settled
  by the presence check before the date is parsed.
\<close>

theorem date_custom_message_counterexample:
  "validate ref_platform (withMessage ''Pick a day'' Schema_date) (VStr ''not a date'')
     = \<lparr>success = False, data = None, errors = Some [''Pick a day'']\<rparr>
   \<and> validate ref_platform (withMessage ''Pick a day'' Schema_date) (VBool True)
     = \<lparr>success = False, data = None, errors = Some [''Pick a day'']\<rparr>
   \<and> validate ref_platform Schema_date VNull
     = \<lparr>success = False, data = None, errors = Some [''Value is required'']\<rparr>"
  by code_simp

text \<open>
  C8: for every validator and every input, a failed result carries a non-empty list of
  error strings (and no data), and a successful result carries data (possibly
  \<open>undefined\<close>) and no errors.
\<close>

theorem validate_result_invariant:
  "(\<not> success (validate P v x) \<longrightarrow>
      (\<exists>es. errors (validate P v x) = Some es \<and> es \<noteq> []) \<and> data (validate P v x) = None)
   \<and> (success (validate P v x) \<longrightarrow>
      (\<exists>d. data (validate P v x) = Some d) \<and> errors (validate P v x) = None)"
  using wellFormed_validate [of P v x] by (simp add: wellFormed_def split: if_splits)

theorem validate_result_invariant_witness:
  "\<not> success (validate ref_platform Schema_string (VNum (Fin 5)))
   \<and> (\<exists>es. errors (validate ref_platform Schema_string (VNum (Fin 5))) = Some es \<and> es \<noteq> [])
   \<and> success (validate ref_platform (optional Schema_string) VNull)
   \<and> (\<exists>d. data (validate ref_platform (optional Schema_string) VNull) = Some d)"
proof -
  have f: "\<not> success (validate ref_platform Schema_string (VNum (Fin 5)))"
    by code_simp
  have s: "success (validate ref_platform (optional Schema_string) VNull)"
    by code_simp
  show ?thesis
    using f s validate_result_invariant [of ref_platform Schema_string "VNum (Fin 5)"]
      validate_result_invariant [of ref_platform "optional Schema_string" VNull]
    by blast
qed

text \<open>
  C9: after \<open>strict()\<close>, the failures that the object validator produces itself report
  \<open>Object contains unexpected properties\<close>: the presence failure on \<open>null\<close> or
  \<open>undefined\<close> (when the validator is not optional) and the type failure on an
  input that is not an object or is an array. On an object the result is the one
  \<open>validateFields\<close> computes from the fields, in which the message of the object
  validator does not occur: it is the result of the validator without \<open>strict()\<close>.
\<close>

theorem strict_message:
  "(isNullish x \<and> \<not> v_optional b \<longrightarrow>
      validate P (strict (ObjectValidator b schema)) x =
        \<lparr>success = False, data = None, errors = Some [''Object contains unexpected properties'']\<rparr>)
   \<and> (\<not> isNullish x \<and> (typeof x \<noteq> ''object'' \<or> isArray x) \<longrightarrow>
      validate P (strict (ObjectValidator b schema)) x =
        \<lparr>success = False, data = None, errors = Some [''Object contains unexpected properties'']\<rparr>)
   \<and> (\<not> isNullish x \<and> typeof x = ''object'' \<and> \<not> isArray x \<longrightarrow>
      validate P (strict (ObjectValidator b schema)) x =
        validateFields P (map (\<lambda>(key, validator). (key, \<lambda>x. validate P validator x)) schema) x
      \<and> validate P (strict (ObjectValidator b schema)) x = validate P (ObjectValidator b schema) x)"
proof (intro conjI impI)
  show "validate P (strict (ObjectValidator b schema)) x =
        \<lparr>success = False, data = None, errors = Some [''Object contains unexpected properties'']\<rparr>"
    if "isNullish x \<and> \<not> v_optional b"
    using that
    by (simp add: strict_def withMessage_def handleOptional_def createError_def orElse_def)
  show "validate P (strict (ObjectValidator b schema)) x =
        \<lparr>success = False, data = None, errors = Some [''Object contains unexpected properties'']\<rparr>"
    if "\<not> isNullish x \<and> (typeof x \<noteq> ''object'' \<or> isArray x)"
    using that
    by (auto simp: strict_def withMessage_def handleOptional_def createError_def orElse_def)
  show "validate P (strict (ObjectValidator b schema)) x =
        validateFields P (map (\<lambda>(key, validator). (key, \<lambda>x. validate P validator x)) schema) x"
    if "\<not> isNullish x \<and> typeof x = ''object'' \<and> \<not> isArray x"
  proof -
    from that have a: "\<not> isNullish x" "typeof x = ''object''" "\<not> isArray x" by simp_all
    show ?thesis
      unfolding strict_def withMessage_def set_base.simps base.simps
      by (rule validate_object_reached [OF a])
  qed
  show "validate P (strict (ObjectValidator b schema)) x = validate P (ObjectValidator b schema) x"
    if "\<not> isNullish x \<and> typeof x = ''object'' \<and> \<not> isArray x"
  proof -
    from that have a: "\<not> isNullish x" "typeof x = ''object''" "\<not> isArray x" by simp_all
    show ?thesis
      unfolding strict_def withMessage_def set_base.simps base.simps
      by (simp only: validate_object_reached [OF a])
  qed
qed

theorem strict_message_witness:
  "isNullish VNull \<and> \<not> v_optional new_base
   \<and> validate ref_platform (strict (Schema_object [(''name'', Schema_string)])) VNull
       = \<lparr>success = False, data = None, errors = Some [''Object contains unexpected properties'']\<rparr>
   \<and> validate ref_platform (strict (Schema_object [(''name'', Schema_string)])) (VStr ''John'')
       = \<lparr>success = False, data = None, errors = Some [''Object contains unexpected properties'']\<rparr>
   \<and> validate ref_platform (strict (Schema_object [(''name'', Schema_string)])) (VObj [(''name'', VNum (Fin 7))])
       = \<lparr>success = False, data = None, errors = Some [''Field 'name': Value must be a string'']\<rparr>"
proof -
  let ?schema = "[(''name'', Schema_string)]"
  have h1: "isNullish VNull \<and> \<not> v_optional new_base" by (simp add: new_base_def)
  have h2: "\<not> isNullish (VStr ''John'') \<and> (typeof (VStr ''John'') \<noteq> ''object'' \<or> isArray (VStr ''John''))"
    by simp
  have h3: "\<not> isNullish (VObj [(''name'', VNum (Fin 7))]) \<and> typeof (VObj [(''name'', VNum (Fin 7))]) = ''object''
      \<and> \<not> isArray (VObj [(''name'', VNum (Fin 7))])"
    by simp
  have e: "validateFields ref_platform (map (\<lambda>(key, validator). (key, \<lambda>x. validate ref_platform validator x)) ?schema)
             (VObj [(''name'', VNum (Fin 7))])
       = \<lparr>success = False, data = None, errors = Some [''Field 'name': Value must be a string'']\<rparr>"
    by code_simp
  have r1: "validate ref_platform (strict (Schema_object ?schema)) VNull
       = \<lparr>success = False, data = None, errors = Some [''Object contains unexpected properties'']\<rparr>"
    using strict_message [of VNull new_base ref_platform ?schema] h1
    unfolding Schema_object_def by (simp del: validate.simps)
  have r2: "validate ref_platform (strict (Schema_object ?schema)) (VStr ''John'')
       = \<lparr>success = False, data = None, errors = Some [''Object contains unexpected properties'']\<rparr>"
    using strict_message [of "VStr ''John''" new_base ref_platform ?schema] h2
    unfolding Schema_object_def by (simp del: validate.simps)
  have r3: "validate ref_platform (strict (Schema_object ?schema)) (VObj [(''name'', VNum (Fin 7))])
       = \<lparr>success = False, data = None, errors = Some [''Field 'name': Value must be a string'']\<rparr>"
    using strict_message [of "VObj [(''name'', VNum (Fin 7))]" new_base ref_platform ?schema] h3 e
    unfolding Schema_object_def by (simp del: validate.simps)
  show ?thesis
    using h1 r1 r2 r3 by (intro conjI) (simp_all del: validate.simps)
qed

text \<open>
  C10: a number validator without range, integer or positive constraint accepts every
  number that is not NaN, the two infinities included, and returns it as the data; NaN is
  rejected.
\<close>

theorem unconstrained_number:
  "(\<not> isNaN n \<longrightarrow>
      validate P (NumberValidator b None None False False) (VNum n)
        = \<lparr>success = True, data = Some (VNum n), errors = None\<rparr>)
   \<and> validate P (NumberValidator b None None False False) (VNum PosInf)
        = \<lparr>success = True, data = Some (VNum PosInf), errors = None\<rparr>
   \<and> validate P (NumberValidator b None None False False) (VNum NegInf)
        = \<lparr>success = True, data = Some (VNum NegInf), errors = None\<rparr>
   \<and> \<not> success (validate P (NumberValidator b None None False False) (VNum NaN))"
  by (simp add: handleOptional_def validateRange_def createSuccess_def createError_def)

theorem unconstrained_number_witness:
  "\<not> isNaN (Fin (5 / 2))
   \<and> validate ref_platform Schema_number (VNum (Fin (5 / 2)))
       = \<lparr>success = True, data = Some (VNum (Fin (5 / 2))), errors = None\<rparr>"
proof -
  have n: "\<not> isNaN (Fin (5 / 2))" by simp
  have "validate ref_platform Schema_number (VNum (Fin (5 / 2)))
       = \<lparr>success = True, data = Some (VNum (Fin (5 / 2))), errors = None\<rparr>"
    using unconstrained_number [of "Fin (5 / 2)" ref_platform new_base] n
    unfolding Schema_number_def by (simp del: validate.simps)
  with n show ?thesis by (intro conjI)
qed

end
